theory Spec2Isabelle
  imports Complex_Main "HOL-Library.Sublist" "HOL-Library.Log_Nat"
begin

section \<open>JavaScript values and strings\<close>

text \<open>
  Strings are character lists. \<open>str_or a d\<close> is the JavaScript expression
  \<^verbatim>\<open>a || d\<close> on an optional string: \<^verbatim>\<open>undefined\<close> and the empty string are
  both falsy.
\<close>

definition str_or :: "string option \<Rightarrow> string \<Rightarrow> string" where
  "str_or a d = (case a of None \<Rightarrow> d | Some s \<Rightarrow> if s = [] then d else s)"

text \<open>
  White space as \<^verbatim>\<open>String.prototype.trim\<close> and the regular expression class
  \<^verbatim>\<open>\s\<close> see it, on the ASCII range: space, tab, line feed, vertical tab, form
  feed, carriage return.
\<close>

definition is_space :: "char \<Rightarrow> bool" where
  "is_space c = (c \<in> {CHR '' '', CHR 0x09, CHR 0x0A, CHR 0x0B, CHR 0x0C, CHR 0x0D})"

definition trim :: "string \<Rightarrow> string" where
  "trim s = rev (dropWhile is_space (rev (dropWhile is_space s)))"

definition is_digit :: "char \<Rightarrow> bool" where
  "is_digit c = (c \<in> set ''0123456789'')"

definition digit_val :: "char \<Rightarrow> nat" where
  "digit_val c =
     (case map_of (zip ''0123456789'' [0, 1, 2, 3, 4, 5, 6, 7, 8, 9]) c of
        Some d \<Rightarrow> d
      | None \<Rightarrow> 0)"

text \<open>The value of a run of decimal digits, as \<^verbatim>\<open>parseInt(ds, 10)\<close> reads it.\<close>

definition digits_val :: "string \<Rightarrow> nat" where
  "digits_val ds = foldl (\<lambda>n c. 10 * n + digit_val c) 0 ds"

text \<open>\<^verbatim>\<open>String.prototype.toLowerCase\<close> on the ASCII range.\<close>

definition lower_char :: "char \<Rightarrow> char" where
  "lower_char c =
     (case map_of (zip ''ABCDEFGHIJKLMNOPQRSTUVWXYZ'' ''abcdefghijklmnopqrstuvwxyz'') c of
        Some l \<Rightarrow> l
      | None \<Rightarrow> c)"

definition toLowerCase :: "string \<Rightarrow> string" where
  "toLowerCase s = map lower_char s"

section \<open>Service facades (electron/tts.ts, electron/video-analyzer.ts)\<close>

text \<open>
  Both facades keep the same two fields, \<^verbatim>\<open>serverProcess\<close> (a child process or
  null) and \<^verbatim>\<open>isServerReady\<close>. The world around a facade is the list of processes
  spawned so far; a process handle is its index in that list. \<^verbatim>\<open>startServer\<close>
  is an async function without an \<^verbatim>\<open>await\<close>: its body, the Python lookup and the
  promise executor with the \<^verbatim>\<open>spawn\<close> call included, runs to the end before any
  other event is handled, so a call is one atomic step on this state.
\<close>

type_synonym handle = nat

record facade =
  serverProcess :: "handle option"
  isServerReady :: bool
  spawned :: "string list"

datatype start_result = AlreadyRunning | Starting handle

definition facade_init :: facade where
  "facade_init = \<lparr>serverProcess = None, isServerReady = False, spawned = []\<rparr>"

text \<open>
  \<^verbatim>\<open>TTSService.startServer\<close>: returns true at once when the process handle is set
  and the ready flag is true; otherwise spawns the interpreter \<open>pythonPath\<close> found
  by the lookup loop and stores the new handle.
\<close>

definition tts_startServer :: "string \<Rightarrow> facade \<Rightarrow> start_result \<times> facade" where
  "tts_startServer pythonPath s =
     (if serverProcess s \<noteq> None \<and> isServerReady s then (AlreadyRunning, s)
      else (let h = length (spawned s)
            in (Starting h, s\<lparr>serverProcess := Some h, spawned := spawned s @ [pythonPath]\<rparr>)))"

text \<open>\<^verbatim>\<open>VideoAnalyzerService.startServer\<close>: the same guard and the same spawn.\<close>

definition analyzer_startServer :: "string \<Rightarrow> facade \<Rightarrow> start_result \<times> facade" where
  "analyzer_startServer pythonPath s =
     (if serverProcess s \<noteq> None \<and> isServerReady s then (AlreadyRunning, s)
      else (let h = length (spawned s)
            in (Starting h, s\<lparr>serverProcess := Some h, spawned := spawned s @ [pythonPath]\<rparr>)))"

text \<open>
  The handlers installed on the spawned process: output containing
  \<^verbatim>\<open>Running on\<close> sets the ready flag; the close event clears flag and handle.
\<close>

definition on_ready :: "facade \<Rightarrow> facade" where
  "on_ready s = s\<lparr>isServerReady := True\<rparr>"

definition on_server_close :: "facade \<Rightarrow> facade" where
  "on_server_close s = s\<lparr>isServerReady := False, serverProcess := None\<rparr>"

definition stopServer :: "facade \<Rightarrow> facade" where
  "stopServer s =
     (if serverProcess s \<noteq> None then s\<lparr>serverProcess := None, isServerReady := False\<rparr> else s)"

section \<open>Transcription (electron/whisper.ts)\<close>

subsection \<open>File system, effects and the service state\<close>

text \<open>
  The file system is a map from paths to contents. Calls on it succeed:
  \<^verbatim>\<open>unlinkSync\<close> removes the entry and \<^verbatim>\<open>readFileSync\<close> of an existing path
  returns its contents. The effects of a call are appended to a trace.
\<close>

datatype arg = Str string | Num nat

text \<open>
  A property read \<^verbatim>\<open>obj[key]\<close> on an object literal whose values are strings
  yields the string stored under the key, or what the key names on
  \<^verbatim>\<open>Object.prototype\<close> (a function or an object, never a string), or
  \<^verbatim>\<open>undefined\<close>.
\<close>

datatype js_prop = Undefined | StrVal string | Inherited

datatype effect =
    Ffmpeg "string list"
  | SpawnWhisper handle "arg list"
  | Unlink string
  | CreateWriteStream string
  | HttpsGet js_prop
  | Rename string string
  | Progress int

record whisper =
  files :: "string \<rightharpoonup> string"
  activeTranscriptions :: "string \<rightharpoonup> handle"
  nspawn :: nat
  trace :: "effect list"

record transcription_result =
  text_of :: string
  segments :: "(rat \<times> rat \<times> string) list"
  language :: string
  duration :: rat

record transcription_options =
  opt_model :: "string option"
  opt_language :: "string option"
  opt_onProgress :: bool

text \<open>
  What the service takes from outside a call: its directories and the CPU count, the
  clock (\<^verbatim>\<open>Date.now()\<close> when the conversion starts and when the recognition
  process is spawned), the run of the conversion command, and the function
  \<^verbatim>\<open>parseWhisperOutput\<close>, which catches every parse error itself. A run of the
  conversion command either closes, with an exit code (none when killed by a signal),
  the contents it wrote to the output path, if any, and its standard error, or it cannot
  be started.
\<close>

datatype conv_run = ConvClosed "int option" "string option" string | ConvSpawnError string

record whisper_env =
  modelsDir :: string
  tempDir :: string
  cpuCores :: nat
  now_convert :: nat
  now_spawn :: nat
  conversion :: conv_run
  parseWhisperOutput :: "string \<Rightarrow> transcription_result"

datatype whisper_error =
    ModelNotDownloaded string
  | FileNotFound string
  | ConversionFailed string
  | TranscriptionFailed string
  | StartFailed string

record job =
  job_file :: string
  job_converted :: "string option"
  job_outputBase :: string
  job_language :: "string option"
  job_proc :: handle

text \<open>A number in decimal, as a template literal prints it.\<close>

fun show_nat :: "nat \<Rightarrow> string" where
  "show_nat n =
     (if n < 10 then [''0123456789'' ! n]
      else show_nat (n div 10) @ [''0123456789'' ! (n mod 10)])"

declare show_nat.simps [simp del]

definition convertedPath :: "whisper_env \<Rightarrow> string" where
  "convertedPath e = tempDir e @ ''/whisper-converted-'' @ show_nat (now_convert e) @ ''.wav''"

definition outputBase :: "whisper_env \<Rightarrow> string" where
  "outputBase e = tempDir e @ ''/whisper-'' @ show_nat (now_spawn e)"

definition SUPPORTED_FORMATS :: "string list" where
  "SUPPORTED_FORMATS = [''.flac'', ''.mp3'', ''.ogg'', ''.wav'']"

text \<open>
  \<^verbatim>\<open>path.extname\<close> (POSIX): the part of the last path component from its last dot
  on, empty when the component has no dot, starts with its only dot, or is \<^verbatim>\<open>..\<close>;
  trailing slashes are ignored.
\<close>

definition basename :: "string \<Rightarrow> string" where
  "basename p =
     rev (takeWhile (\<lambda>c. c \<noteq> CHR ''/'') (dropWhile (\<lambda>c. c = CHR ''/'') (rev p)))"

definition extname :: "string \<Rightarrow> string" where
  "extname p =
     (let b = basename p;
          e = rev (takeWhile (\<lambda>c. c \<noteq> CHR ''.'') (rev b));
          stem = take (length b - length e - 1) b
      in if CHR ''.'' \<notin> set b \<or> stem = [] \<or> b = ''..'' then [] else CHR ''.'' # e)"

definition needsConversion :: "string \<Rightarrow> bool" where
  "needsConversion filePath = (toLowerCase (extname filePath) \<notin> set SUPPORTED_FORMATS)"

definition getModelPath :: "string \<Rightarrow> string \<Rightarrow> string" where
  "getModelPath dir modelName = dir @ ''/ggml-'' @ modelName @ ''.bin''"

text \<open>
  \<^verbatim>\<open>convertToWav\<close>: runs the conversion command on the input, asking for 16 kHz,
  one channel, 16-bit PCM; the promise resolves with the output path when the command
  exits with code 0 and the output exists, and rejects otherwise.
\<close>

definition ffmpeg_args :: "string \<Rightarrow> string \<Rightarrow> string list" where
  "ffmpeg_args inputPath outputPath =
     [''-i'', inputPath, ''-ar'', ''16000'', ''-ac'', ''1'', ''-c:a'', ''pcm_s16le'', ''-y'',
      outputPath]"

definition convertToWav :: "whisper_env \<Rightarrow> string \<Rightarrow> whisper \<Rightarrow> (string + string) \<times> whisper" where
  "convertToWav e inputPath w =
     (let out = convertedPath e;
          w1 = w\<lparr>trace := trace w @ [Ffmpeg (ffmpeg_args inputPath out)]\<rparr>
      in case conversion e of
           ConvSpawnError msg \<Rightarrow> (Inl (''FFmpeg error: '' @ msg), w1)
         | ConvClosed code written stderr \<Rightarrow>
             (let w2 = (case written of None \<Rightarrow> w1
                        | Some c \<Rightarrow> w1\<lparr>files := (files w1)(out \<mapsto> c)\<rparr>)
              in if code = Some 0 \<and> files w2 out \<noteq> None then (Inr out, w2)
                 else (Inl (''Failed to convert audio: '' @ stderr), w2)))"

definition threads :: "nat \<Rightarrow> nat" where
  "threads cores = max 1 (cores * 3 div 4)"

text \<open>
  \<^verbatim>\<open>transcribe\<close> up to the return of its promise: the two existence checks, the
  conversion when needed, the spawn of the recognition process and its registration
  under the file path.
\<close>

definition transcribe :: "whisper_env \<Rightarrow> string \<Rightarrow> transcription_options \<Rightarrow> whisper
    \<Rightarrow> (whisper_error + job) \<times> whisper" where
  "transcribe e filePath opts w =
     (let modelName = str_or (opt_model opts) ''tiny'';
          modelPath = getModelPath (modelsDir e) modelName
      in if files w modelPath = None then (Inl (ModelNotDownloaded modelName), w)
         else if files w filePath = None then (Inl (FileNotFound filePath), w)
         else
           (case (if needsConversion filePath
                  then (case convertToWav e filePath w of
                          (Inl msg, w1) \<Rightarrow> (Inl msg, w1)
                        | (Inr p, w1) \<Rightarrow> (Inr (Some p), w1))
                  else (Inr None, w)) of
              (Inl msg, w1) \<Rightarrow> (Inl (ConversionFailed msg), w1)
            | (Inr convertedFile, w1) \<Rightarrow>
                (let audioPath = (case convertedFile of None \<Rightarrow> filePath | Some p \<Rightarrow> p);
                     args = [Str ''-m'', Str modelPath, Str ''-f'', Str audioPath,
                             Str ''-oj'', Str ''-of'', Str (outputBase e)]
                            @ (case opt_language opts of
                                 None \<Rightarrow> []
                               | Some l \<Rightarrow> if l = [] then [] else [Str ''-l'', Str l])
                            @ [Str ''-t'', Num (threads (cpuCores e))];
                     h = nspawn w1
                 in (Inr \<lparr>job_file = filePath, job_converted = convertedFile,
                          job_outputBase = outputBase e, job_language = opt_language opts,
                          job_proc = h\<rparr>,
                     w1\<lparr>nspawn := h + 1,
                        activeTranscriptions := (activeTranscriptions w1)(filePath \<mapsto> h),
                        trace := trace w1 @ [SpawnWhisper h args]\<rparr>))))"

text \<open>The \<^verbatim>\<open>cleanup\<close> closure: delete the converted file if there is one and it exists.\<close>

definition cleanup :: "job \<Rightarrow> whisper \<Rightarrow> whisper" where
  "cleanup j w =
     (case job_converted j of
        None \<Rightarrow> w
      | Some p \<Rightarrow> if p \<noteq> [] \<and> files w p \<noteq> None
                  then w\<lparr>files := (files w)(p := None), trace := trace w @ [Unlink p]\<rparr>
                  else w)"

definition no_output_text :: string where
  "no_output_text =
     ''Transcription completed but no output file found. Check if the audio format is supported.''"

text \<open>
  The handler of the recognition process's close event, with the exit code (none when
  the process was killed by a signal) and the standard error collected so far.
\<close>

definition on_close :: "whisper_env \<Rightarrow> job \<Rightarrow> int option \<Rightarrow> string \<Rightarrow> whisper
    \<Rightarrow> (whisper_error + transcription_result) \<times> whisper" where
  "on_close e j code stderr w =
     (let w1 = cleanup j (w\<lparr>activeTranscriptions := (activeTranscriptions w)(job_file j := None)\<rparr>)
      in if code \<noteq> Some 0
         then (Inl (TranscriptionFailed (if stderr = [] then ''Unknown error'' else stderr)), w1)
         else
           (let jsonPath = job_outputBase j @ ''.json''; txtPath = job_outputBase j @ ''.txt''
            in case files w1 jsonPath of
                 Some jsonContent \<Rightarrow>
                   (Inr (parseWhisperOutput e jsonContent),
                    w1\<lparr>files := (files w1)(jsonPath := None), trace := trace w1 @ [Unlink jsonPath]\<rparr>)
               | None \<Rightarrow>
                   (case files w1 txtPath of
                      Some txt \<Rightarrow>
                        (Inr \<lparr>text_of = trim txt, segments = [],
                              language = str_or (job_language j) ''auto'', duration = 0\<rparr>,
                         w1\<lparr>files := (files w1)(txtPath := None), trace := trace w1 @ [Unlink txtPath]\<rparr>)
                    | None \<Rightarrow>
                        (Inr \<lparr>text_of = no_output_text, segments = [],
                              language = str_or (job_language j) ''unknown'', duration = 0\<rparr>,
                         w1))))"

text \<open>The handler of the error event: the recognition process could not be started.\<close>

definition on_error :: "job \<Rightarrow> string \<Rightarrow> whisper \<Rightarrow> (whisper_error + transcription_result) \<times> whisper" where
  "on_error j msg w =
     (Inl (StartFailed msg),
      cleanup j (w\<lparr>activeTranscriptions := (activeTranscriptions w)(job_file j := None)\<rparr>))"

definition cancelTranscription :: "string \<Rightarrow> whisper \<Rightarrow> bool \<times> whisper" where
  "cancelTranscription filePath w =
     (case activeTranscriptions w filePath of
        Some h \<Rightarrow> (True, w\<lparr>activeTranscriptions := (activeTranscriptions w)(filePath := None)\<rparr>)
      | None \<Rightarrow> (False, w))"

subsection \<open>Recognition progress\<close>

text \<open>
  The regular expression \<^verbatim>\<open>/progress\s*=\s*(\d+)%/\<close> tried at the start of a string:
  the word, white space, the equals sign, white space, one or more digits, the per cent
  sign. Both repetitions are greedy and what follows each cannot match the repeated
  class, so there is one way to match. The result is \<^verbatim>\<open>parseInt\<close> of the digits,
  which is their exact value up to \<open>2\<^sup>5\<^sup>3\<close>.
\<close>

definition progress_at :: "string \<Rightarrow> nat option" where
  "progress_at s =
     (if prefix ''progress'' s
      then (case dropWhile is_space (drop 8 s) of
              [] \<Rightarrow> None
            | c # r \<Rightarrow>
                if c = CHR ''=''
                then (let r1 = dropWhile is_space r; ds = takeWhile is_digit r1
                      in if ds \<noteq> [] \<and> prefix ''%'' (dropWhile is_digit r1)
                         then Some (digits_val ds) else None)
                else None)
      else None)"

text \<open>\<^verbatim>\<open>output.match(...)\<close>: the leftmost position where the expression matches.\<close>

fun progressMatch :: "string \<Rightarrow> nat option" where
  "progressMatch [] = None"
| "progressMatch (c # cs) =
     (case progress_at (c # cs) of Some n \<Rightarrow> Some n | None \<Rightarrow> progressMatch cs)"

text \<open>
  A progress line as the recognition process prints it, with the number in decimal.
\<close>

definition progress_line :: "nat \<Rightarrow> string" where
  "progress_line n =
     ''whisper_print_progress_callback: progress = '' @ show_nat n @ ''%'' @ [CHR 0x0A]"

text \<open>
  The handler of the recognition process's standard output: the values passed to
  \<^verbatim>\<open>options.onProgress\<close> for one data chunk, and for a run of chunks.
\<close>

definition on_stdout :: "transcription_options \<Rightarrow> string \<Rightarrow> int list" where
  "on_stdout opts output =
     (if opt_onProgress opts
      then (case progressMatch output of Some n \<Rightarrow> [int n] | None \<Rightarrow> [])
      else [])"

definition stdout_progress :: "transcription_options \<Rightarrow> string list \<Rightarrow> int list" where
  "stdout_progress opts outputs = concat (map (on_stdout opts) outputs)"

section \<open>Model download (electron/whisper.ts)\<close>

definition MODEL_DOWNLOAD_URLS :: "(string \<times> string) list" where
  "MODEL_DOWNLOAD_URLS =
     [(''tiny'', ''https://huggingface.co/ggerganov/whisper.cpp/resolve/main/ggml-tiny.bin''),
      (''tiny.en'', ''https://huggingface.co/ggerganov/whisper.cpp/resolve/main/ggml-tiny.en.bin''),
      (''base'', ''https://huggingface.co/ggerganov/whisper.cpp/resolve/main/ggml-base.bin''),
      (''base.en'', ''https://huggingface.co/ggerganov/whisper.cpp/resolve/main/ggml-base.en.bin''),
      (''small'', ''https://huggingface.co/ggerganov/whisper.cpp/resolve/main/ggml-small.bin''),
      (''small.en'', ''https://huggingface.co/ggerganov/whisper.cpp/resolve/main/ggml-small.en.bin''),
      (''medium'', ''https://huggingface.co/ggerganov/whisper.cpp/resolve/main/ggml-medium.bin''),
      (''medium.en'', ''https://huggingface.co/ggerganov/whisper.cpp/resolve/main/ggml-medium.en.bin''),
      (''large-v3'', ''https://huggingface.co/ggerganov/whisper.cpp/resolve/main/ggml-large-v3.bin'')]"

text \<open>The property names every object literal inherits from \<^verbatim>\<open>Object.prototype\<close>.\<close>

definition object_prototype_keys :: "string list" where
  "object_prototype_keys =
     [''constructor'', ''hasOwnProperty'', ''isPrototypeOf'', ''propertyIsEnumerable'',
      ''toLocaleString'', ''toString'', ''valueOf'', ''__proto__'', ''__defineGetter__'',
      ''__defineSetter__'', ''__lookupGetter__'', ''__lookupSetter__'']"

definition js_get :: "(string \<times> string) list \<Rightarrow> string \<Rightarrow> js_prop" where
  "js_get obj key =
     (case map_of obj key of
        Some v \<Rightarrow> StrVal v
      | None \<Rightarrow> if key \<in> set object_prototype_keys then Inherited else Undefined)"

definition truthy :: "js_prop \<Rightarrow> bool" where
  "truthy v = (case v of Undefined \<Rightarrow> False | StrVal s \<Rightarrow> s \<noteq> [] | Inherited \<Rightarrow> True)"

text \<open>
  \<^verbatim>\<open>parseInt(s, 10)\<close>: leading white space, an optional sign, then the longest run
  of digits; \<open>None\<close> is NaN.
\<close>

definition parseInt10 :: "string \<Rightarrow> int option" where
  "parseInt10 s =
     (let s1 = dropWhile is_space s;
          neg = prefix ''-'' s1;
          s2 = (if prefix ''-'' s1 \<or> prefix ''+'' s1 then tl s1 else s1);
          ds = takeWhile is_digit s2
      in if ds = [] then None
         else Some (if neg then - int (digits_val ds) else int (digits_val ds)))"

text \<open>
  JavaScript numbers are IEEE 754 binary64 values, and division and multiplication
  round their exact result to the nearest such value, a tie going to the even
  significand. \<open>fl x\<close> is that rounding for a non-negative rational \<open>x\<close> in the
  normal range: with \<open>2 ^ e \<le> x < 2 ^ (e + 1)\<close> the result is the multiple of
  \<open>2 ^ (e - 52)\<close> nearest to \<open>x\<close>. \<open>ilog2 x\<close> is that exponent \<open>e\<close>, computed from
  the bit length of the integer part of \<open>x\<close> or of \<open>1 / x\<close>.
\<close>

definition ilog2 :: "rat \<Rightarrow> int" where
  "ilog2 x = (if 1 \<le> x then bitlen \<lfloor>x\<rfloor> - 1 else - bitlen (\<lceil>1 / x\<rceil> - 1))"

definition round_even :: "rat \<Rightarrow> int" where
  "round_even x =
     (if x - of_int \<lfloor>x\<rfloor> < 1 / 2 then \<lfloor>x\<rfloor>
      else if 1 / 2 < x - of_int \<lfloor>x\<rfloor> then \<lfloor>x\<rfloor> + 1
      else if even \<lfloor>x\<rfloor> then \<lfloor>x\<rfloor> else \<lfloor>x\<rfloor> + 1)"

definition fl :: "rat \<Rightarrow> rat" where
  "fl x = (if x \<le> 0 then 0
           else of_int (round_even (x / 2 powi (ilog2 x - 52))) * 2 powi (ilog2 x - 52))"

text \<open>
  \<^verbatim>\<open>Math.round((downloadedSize / totalSize) * 100)\<close>: the quotient of the two byte
  counts rounded to a double, its product with 100 rounded to a double, and
  \<^verbatim>\<open>Math.round\<close> of that, which is exact and rounds a half upwards, as \<open>round\<close>
  does. The byte counts are integers below \<open>2 ^ 53\<close> and so doubles themselves; their
  quotient is 0 or lies between \<open>2 ^ - 53\<close> and \<open>2 ^ 53\<close>, in the normal range.
\<close>

definition percent :: "nat \<Rightarrow> int \<Rightarrow> int" where
  "percent downloadedSize totalSize =
     round (fl (fl (of_nat downloadedSize / of_int totalSize) * 100))"

text \<open>
  The data handler both download functions install, run over the chunks of one
  response: \<open>downloadedSize\<close> grows by the length of each chunk, and the callback, when
  there is one and \<open>totalSize > 0\<close>, gets the percentage. The result lists the
  callback's arguments.
\<close>

fun on_data :: "int option \<Rightarrow> bool \<Rightarrow> nat \<Rightarrow> string list \<Rightarrow> int list" where
  "on_data totalSize onProgress downloadedSize [] = []"
| "on_data totalSize onProgress downloadedSize (chunk # rest) =
     (let d = downloadedSize + length chunk
      in (case totalSize of
            None \<Rightarrow> []
          | Some t \<Rightarrow> if t > 0 \<and> onProgress then [percent d t] else [])
         @ on_data totalSize onProgress d rest)"

record response =
  statusCode :: nat
  location :: "string option"
  contentLength :: "string option"
  body :: "string list"

datatype http_reply = NetError string | Reply response

datatype dl_error =
    UnknownModel string
  | HttpStatus nat
  | NetworkError string
  | RequestOfNonUrl

definition totalSize_of :: "response \<Rightarrow> int option" where
  "totalSize_of r = parseInt10 (str_or (contentLength r) ''0'')"

definition create_stream :: "string \<Rightarrow> whisper \<Rightarrow> whisper" where
  "create_stream p w = w\<lparr>files := (files w)(p \<mapsto> []), trace := trace w @ [CreateWriteStream p]\<rparr>"

definition unlink :: "string \<Rightarrow> whisper \<Rightarrow> whisper" where
  "unlink p w = w\<lparr>files := (files w)(p := None), trace := trace w @ [Unlink p]\<rparr>"

definition rename :: "string \<Rightarrow> string \<Rightarrow> whisper \<Rightarrow> whisper" where
  "rename src dst w =
     w\<lparr>files := ((files w)(dst := files w src))(src := None), trace := trace w @ [Rename src dst]\<rparr>"

definition pipe_body :: "string \<Rightarrow> bool \<Rightarrow> response \<Rightarrow> whisper \<Rightarrow> whisper" where
  "pipe_body p onProgress r w =
     w\<lparr>files := (files w)(p \<mapsto> concat (body r)),
       trace := trace w @ map Progress (on_data (totalSize_of r) onProgress 0 (body r))\<rparr>"

text \<open>
  \<^verbatim>\<open>downloadFromUrl\<close>, the request that follows a redirect. \<open>net\<close> is the network:
  the reply to a GET of a URL. The three exits are the error event of the request, a
  status other than 200, and the finish event of the file.
\<close>

definition downloadFromUrl :: "(string \<Rightarrow> http_reply) \<Rightarrow> string \<Rightarrow> string \<Rightarrow> bool \<Rightarrow> whisper
    \<Rightarrow> (dl_error + unit) \<times> whisper" where
  "downloadFromUrl net url destPath onProgress w =
     (let w1 = create_stream destPath w;
          w2 = w1\<lparr>trace := trace w1 @ [HttpsGet (StrVal url)]\<rparr>
      in case net url of
           NetError msg \<Rightarrow> (Inl (NetworkError msg), w2)
         | Reply r \<Rightarrow>
             if statusCode r \<noteq> 200 then (Inl (HttpStatus (statusCode r)), w2)
             else (Inr (), pipe_body destPath onProgress r w2))"

text \<open>
  \<^verbatim>\<open>downloadModel\<close>. The guard is \<^verbatim>\<open>if (!url)\<close> on the value read from
  \<^verbatim>\<open>MODEL_DOWNLOAD_URLS\<close>. Past the guard the write stream on the temporary path is
  created and \<^verbatim>\<open>https.get\<close> is called with that value; when the value is no string,
  what the HTTP library does with it lies outside the repository and the model ends
  there with \<open>RequestOfNonUrl\<close>.
\<close>

definition downloadModel :: "(string \<Rightarrow> http_reply) \<Rightarrow> string \<Rightarrow> string \<Rightarrow> bool \<Rightarrow> whisper
    \<Rightarrow> (dl_error + bool) \<times> whisper" where
  "downloadModel net dir modelName onProgress w =
     (let url = js_get MODEL_DOWNLOAD_URLS modelName
      in if \<not> truthy url then (Inl (UnknownModel modelName), w)
         else
           (let modelPath = getModelPath dir modelName;
                tempPath = modelPath @ ''.tmp'';
                w1 = create_stream tempPath w;
                w2 = w1\<lparr>trace := trace w1 @ [HttpsGet url]\<rparr>
            in case url of
                 StrVal u \<Rightarrow>
                   (case net u of
                      NetError msg \<Rightarrow>
                        (Inl (NetworkError msg),
                         if files w2 tempPath \<noteq> None then unlink tempPath w2 else w2)
                    | Reply r \<Rightarrow>
                        if (statusCode r = 301 \<or> statusCode r = 302)
                           \<and> str_or (location r) [] \<noteq> []
                        then (case downloadFromUrl net (str_or (location r) []) tempPath onProgress
                                     (unlink tempPath w2) of
                                (Inl err, w3) \<Rightarrow> (Inl err, w3)
                              | (Inr u, w3) \<Rightarrow> (Inr True, rename tempPath modelPath w3))
                        else if statusCode r \<noteq> 200
                        then (Inl (HttpStatus (statusCode r)), unlink tempPath w2)
                        else (Inr True, rename tempPath modelPath (pipe_body tempPath onProgress r w2)))
               | _ \<Rightarrow> (Inl RequestOfNonUrl, w2)))"

section \<open>Streaming client of the LLM server\<close>

text \<open>\<^verbatim>\<open>s.split('\n')\<close>: the pieces between line feeds, at least one.\<close>

fun split_nl :: "string \<Rightarrow> string list" where
  "split_nl [] = [[]]"
| "split_nl (c # cs) =
     (if c = CHR 0x0A then [] # split_nl cs
      else (case split_nl cs of [] \<Rightarrow> [[c]] | l # ls \<Rightarrow> (c # l) # ls))"

subsection \<open>generateStream\<close>

text \<open>
  What the handler reads of a parsed line: \<^verbatim>\<open>data.response\<close> (empty when falsy),
  whether \<^verbatim>\<open>data.done\<close> is truthy (\<open>is_done\<close>), and \<^verbatim>\<open>data.error\<close> when it is a string. The
  parser is a parameter; it returns \<open>None\<close> where \<^verbatim>\<open>JSON.parse\<close> or the reads of
  the handler throw, which the handler's \<^verbatim>\<open>catch\<close> ignores.
\<close>

record gen_msg =
  response :: string
  is_done :: bool
  error :: "string option"

datatype gen_outcome = Resolved string | Rejected string

record gen_state =
  g_buffer :: string
  fullResponse :: string
  onChunk_calls :: "string list"
  g_settled :: "gen_outcome option"

definition gen_init :: gen_state where
  "gen_init = \<lparr>g_buffer = [], fullResponse = [], onChunk_calls = [], g_settled = None\<rparr>"

text \<open>A promise settles once: later calls of resolve and reject change nothing.\<close>

definition g_settle :: "gen_outcome \<Rightarrow> gen_state \<Rightarrow> gen_state" where
  "g_settle r s = (if g_settled s = None then s\<lparr>g_settled := Some r\<rparr> else s)"

text \<open>
  The loop over the complete lines of one data event. The \<^verbatim>\<open>return\<close> after resolve
  or reject leaves the handler, so the lines after it are not looked at.
\<close>

fun gen_lines :: "(string \<Rightarrow> gen_msg option) \<Rightarrow> string list \<Rightarrow> gen_state \<Rightarrow> gen_state" where
  "gen_lines parse [] s = s"
| "gen_lines parse (line # rest) s =
     (if trim line \<noteq> []
      then (case parse line of
              None \<Rightarrow> gen_lines parse rest s
            | Some d \<Rightarrow>
                (let s1 = (if response d \<noteq> []
                           then s\<lparr>fullResponse := fullResponse s @ response d,
                                  onChunk_calls := onChunk_calls s @ [response d]\<rparr>
                           else s)
                 in if is_done d then g_settle (Resolved (fullResponse s1)) s1
                    else (case error d of
                            Some msg \<Rightarrow> g_settle (Rejected msg) s1
                          | None \<Rightarrow> gen_lines parse rest s1)))
      else gen_lines parse rest s)"

definition gen_on_data :: "(string \<Rightarrow> gen_msg option) \<Rightarrow> string \<Rightarrow> gen_state \<Rightarrow> gen_state" where
  "gen_on_data parse chunk s =
     (let lines = split_nl (g_buffer s @ chunk)
      in gen_lines parse (butlast lines) (s\<lparr>g_buffer := last lines\<rparr>))"

definition gen_on_end :: "gen_state \<Rightarrow> gen_state" where
  "gen_on_end s = g_settle (Resolved (fullResponse s)) s"

text \<open>A response delivered in the given data chunks, then closed.\<close>

definition generateStream :: "(string \<Rightarrow> gen_msg option) \<Rightarrow> string list \<Rightarrow> gen_state" where
  "generateStream parse chunks = gen_on_end (foldl (\<lambda>s c. gen_on_data parse c s) gen_init chunks)"

subsection \<open>pullModel\<close>

text \<open>
  What the handler reads of a parsed line: \<^verbatim>\<open>data.status\<close> and \<^verbatim>\<open>data.error\<close>
  (empty when falsy), \<^verbatim>\<open>data.completed\<close> and \<^verbatim>\<open>data.total\<close>.
\<close>

record pull_msg =
  status :: string
  completed :: "nat option"
  total :: "nat option"
  pull_error :: string

datatype pull_outcome = PullResolved bool | PullRejected string

record pull_state =
  p_buffer :: string
  onProgress_calls :: "(string \<times> nat option \<times> nat option) list"
  p_settled :: "pull_outcome option"

definition pull_init :: pull_state where
  "pull_init = \<lparr>p_buffer = [], onProgress_calls = [], p_settled = None\<rparr>"

definition p_settle :: "pull_outcome \<Rightarrow> pull_state \<Rightarrow> pull_state" where
  "p_settle r s = (if p_settled s = None then s\<lparr>p_settled := Some r\<rparr> else s)"

fun pull_lines :: "(string \<Rightarrow> pull_msg option) \<Rightarrow> bool \<Rightarrow> string list \<Rightarrow> pull_state \<Rightarrow> pull_state" where
  "pull_lines parse onProgress [] s = s"
| "pull_lines parse onProgress (line # rest) s =
     (if trim line \<noteq> []
      then (case parse line of
              None \<Rightarrow> pull_lines parse onProgress rest s
            | Some d \<Rightarrow>
                (let s1 = (if onProgress
                           then s\<lparr>onProgress_calls := onProgress_calls s @
                                    [(if status d = [] then ''downloading'' else status d,
                                      completed d, total d)]\<rparr>
                           else s)
                 in if status d = ''success'' then p_settle (PullResolved True) s1
                    else if pull_error d \<noteq> [] then p_settle (PullRejected (pull_error d)) s1
                    else pull_lines parse onProgress rest s1))
      else pull_lines parse onProgress rest s)"

definition pull_on_data :: "(string \<Rightarrow> pull_msg option) \<Rightarrow> bool \<Rightarrow> string \<Rightarrow> pull_state \<Rightarrow> pull_state" where
  "pull_on_data parse onProgress chunk s =
     (let lines = split_nl (p_buffer s @ chunk)
      in pull_lines parse onProgress (butlast lines) (s\<lparr>p_buffer := last lines\<rparr>))"

text \<open>The end event: a last attempt on what is left in the buffer.\<close>

definition pull_on_end :: "(string \<Rightarrow> pull_msg option) \<Rightarrow> pull_state \<Rightarrow> pull_state" where
  "pull_on_end parse s =
     (if trim (p_buffer s) \<noteq> []
      then (case parse (p_buffer s) of
              Some d \<Rightarrow>
                if status d = ''success'' then p_settle (PullResolved True) s
                else if pull_error d \<noteq> [] then p_settle (PullRejected (pull_error d)) s
                else p_settle (PullResolved True) s
            | None \<Rightarrow> p_settle (PullResolved True) s)
      else p_settle (PullResolved True) s)"

definition pullModel :: "(string \<Rightarrow> pull_msg option) \<Rightarrow> bool \<Rightarrow> string list \<Rightarrow> pull_state" where
  "pullModel parse onProgress chunks =
     pull_on_end parse (foldl (\<lambda>s c. pull_on_data parse onProgress c s) pull_init chunks)"

subsection \<open>The stream as a sequence of lines\<close>

text \<open>
  The lines of a stream seen as a whole: those ended by a line feed, and what follows
  the last line feed.
\<close>

definition complete_lines :: "string \<Rightarrow> string list" where
  "complete_lines stream = butlast (split_nl stream)"

definition partial_line :: "string \<Rightarrow> string" where
  "partial_line stream = last (split_nl stream)"

text \<open>
  The complete lines each data event sees, given what the buffer holds before the first
  of them; and a list of lines cut after its first line with a given property.
\<close>

fun event_lines :: "string \<Rightarrow> string list \<Rightarrow> string list list" where
  "event_lines buf [] = []"
| "event_lines buf (chunk # chunks) =
     complete_lines (buf @ chunk) # event_lines (partial_line (buf @ chunk)) chunks"

fun until_first :: "(string \<Rightarrow> bool) \<Rightarrow> string list \<Rightarrow> string list" where
  "until_first P [] = []"
| "until_first P (l # ls) = (if P l then [l] else l # until_first P ls)"

text \<open>
  A line ends the generation when it is not blank, parses, and reports
  \<^verbatim>\<open>done\<close> or an error. The responses of a list of lines are the non-empty
  \<^verbatim>\<open>response\<close> fields of its non-blank lines that parse. The verdict of a line that
  ends the generation is the accumulated text, or its error.
\<close>

definition gen_terminal :: "(string \<Rightarrow> gen_msg option) \<Rightarrow> string \<Rightarrow> bool" where
  "gen_terminal parse line =
     (trim line \<noteq> []
      \<and> (case parse line of None \<Rightarrow> False | Some d \<Rightarrow> is_done d \<or> error d \<noteq> None))"

definition gen_response :: "(string \<Rightarrow> gen_msg option) \<Rightarrow> string \<Rightarrow> string list" where
  "gen_response parse line =
     (if trim line \<noteq> []
      then (case parse line of
              None \<Rightarrow> []
            | Some d \<Rightarrow> if response d \<noteq> [] then [response d] else [])
      else [])"

definition gen_responses :: "(string \<Rightarrow> gen_msg option) \<Rightarrow> string list \<Rightarrow> string list" where
  "gen_responses parse lines = concat (map (gen_response parse) lines)"

definition gen_verdict :: "gen_msg \<Rightarrow> string \<Rightarrow> gen_outcome" where
  "gen_verdict d acc =
     (if is_done d then Resolved acc
      else (case error d of Some msg \<Rightarrow> Rejected msg | None \<Rightarrow> Resolved acc))"

text \<open>The same notions for the pull stream.\<close>

definition pull_terminal :: "(string \<Rightarrow> pull_msg option) \<Rightarrow> string \<Rightarrow> bool" where
  "pull_terminal parse line =
     (trim line \<noteq> []
      \<and> (case parse line of
            None \<Rightarrow> False
          | Some d \<Rightarrow> status d = ''success'' \<or> pull_error d \<noteq> []))"

definition pull_report :: "(string \<Rightarrow> pull_msg option) \<Rightarrow> string
    \<Rightarrow> (string \<times> nat option \<times> nat option) list" where
  "pull_report parse line =
     (if trim line \<noteq> []
      then (case parse line of
              None \<Rightarrow> []
            | Some d \<Rightarrow> [(if status d = [] then ''downloading'' else status d,
                          completed d, total d)])
      else [])"

definition pull_reports :: "(string \<Rightarrow> pull_msg option) \<Rightarrow> bool \<Rightarrow> string list
    \<Rightarrow> (string \<times> nat option \<times> nat option) list" where
  "pull_reports parse onProgress lines =
     (if onProgress then concat (map (pull_report parse) lines) else [])"

definition pull_verdict :: "pull_msg \<Rightarrow> pull_outcome" where
  "pull_verdict d =
     (if status d = ''success'' then PullResolved True
      else if pull_error d \<noteq> [] then PullRejected (pull_error d)
      else PullResolved True)"

section \<open>Concrete inputs\<close>

text \<open>
  A service with the model \<^verbatim>\<open>tiny\<close> installed and two input files, one in a
  supported format and one that needs conversion; an empty service; and a network whose
  reply to the catalogue URL of \<^verbatim>\<open>tiny\<close> is a redirect and whose reply to every
  other URL is 404.
\<close>

definition sample_env :: whisper_env where
  "sample_env = \<lparr>modelsDir = ''/models'', tempDir = ''/tmp'', cpuCores = 8, now_convert = 1000,
     now_spawn = 2000, conversion = ConvClosed (Some 0) (Some ''RIFF'') [],
     parseWhisperOutput = (\<lambda>out. \<lparr>text_of = trim out, segments = [], language = ''unknown'', duration = 0\<rparr>)\<rparr>"
definition sample_world :: whisper where
  "sample_world = \<lparr>files = [''/models/ggml-tiny.bin'' \<mapsto> ''model'', ''/in/a.wav'' \<mapsto> ''wav'', ''/in/b.m4a'' \<mapsto> ''m4a''],
     activeTranscriptions = Map.empty, nspawn = 0, trace = []\<rparr>"
definition sample_opts :: transcription_options where
  "sample_opts = \<lparr>opt_model = None, opt_language = None, opt_onProgress = True\<rparr>"
definition empty_world :: whisper where
  "empty_world = \<lparr>files = Map.empty, activeTranscriptions = Map.empty, nspawn = 0, trace = []\<rparr>"
definition redirect_404_net :: "string \<Rightarrow> http_reply" where
  "redirect_404_net u =
     (if u = ''https://huggingface.co/ggerganov/whisper.cpp/resolve/main/ggml-tiny.bin''
      then Reply \<lparr>statusCode = 302, location = Some ''https://cdn.example/ggml-tiny.bin'',
                  contentLength = None, body = []\<rparr>
      else Reply \<lparr>statusCode = 404, location = None, contentLength = None, body = []\<rparr>)"

text \<open>The arguments of the progress callback recorded in a trace, in order.\<close>

fun progress_of :: "effect list \<Rightarrow> int list" where
  "progress_of [] = []"
| "progress_of (Progress p # evs) = p # progress_of evs"
| "progress_of (ev # evs) = progress_of evs"

text \<open>
  A reply of 1000 bytes in two chunks of 500 with its \<^verbatim>\<open>Content-Length\<close>, the
  same body without the header, and a reply of 40 bytes in chunks of 23 and 17.
\<close>

definition reply_1000 :: response where
  "reply_1000 = \<lparr>statusCode = 200, location = None, contentLength = Some ''1000'',
                  body = [replicate 500 (CHR ''a''), replicate 500 (CHR ''b'')]\<rparr>"

definition reply_40 :: response where
  "reply_40 = \<lparr>statusCode = 200, location = None, contentLength = Some ''40'',
                body = [replicate 23 (CHR ''a''), replicate 17 (CHR ''b'')]\<rparr>"

definition redirect_to :: "string \<Rightarrow> response" where
  "redirect_to l = \<lparr>statusCode = 302, location = Some l, contentLength = None, body = []\<rparr>"

text \<open>
  Networks: one that answers every request with the given reply, and one that redirects
  the catalogue URL of \<^verbatim>\<open>tiny\<close> to a mirror that answers with the given reply.
\<close>

definition serve :: "response \<Rightarrow> string \<Rightarrow> http_reply" where
  "serve r u = Reply r"

definition serve_redirected :: "response \<Rightarrow> string \<Rightarrow> http_reply" where
  "serve_redirected r u =
     (if u = ''https://huggingface.co/ggerganov/whisper.cpp/resolve/main/ggml-tiny.bin''
      then Reply (redirect_to ''https://cdn.example/ggml-tiny.bin'')
      else Reply r)"

definition reply_no_length :: response where
  "reply_no_length = \<lparr>statusCode = 200, location = None, contentLength = None,
                       body = [replicate 500 (CHR ''a''), replicate 500 (CHR ''b'')]\<rparr>"

text \<open>
  A parser for three lines of a generation stream and one for three lines of a pull
  stream; every other line is malformed for them.
\<close>

definition sample_gen_parse :: "string \<Rightarrow> gen_msg option" where
  "sample_gen_parse line =
     (if line = ''{\"response\":\"a\"}''
      then Some \<lparr>response = ''a'', is_done = False, error = None\<rparr>
      else if line = ''{\"response\":\"b\"}''
      then Some \<lparr>response = ''b'', is_done = False, error = None\<rparr>
      else if line = ''{\"response\":\"\",\"done\":true}''
      then Some \<lparr>response = [], is_done = True, error = None\<rparr>
      else None)"

definition sample_pull_parse :: "string \<Rightarrow> pull_msg option" where
  "sample_pull_parse line =
     (if line = ''{\"status\":\"pulling\",\"completed\":5,\"total\":10}''
      then Some \<lparr>status = ''pulling'', completed = Some 5, total = Some 10, pull_error = []\<rparr>
      else if line = ''{\"status\":\"verifying\"}''
      then Some \<lparr>status = ''verifying'', completed = None, total = None, pull_error = []\<rparr>
      else if line = ''{\"status\":\"success\"}''
      then Some \<lparr>status = ''success'', completed = None, total = None, pull_error = []\<rparr>
      else None)"

text \<open>
  Streams in data chunks: a generation stream with a malformed line and a cut in the
  middle of a line, one that ends with the \<^verbatim>\<open>done\<close> line, one with a line after the
  \<^verbatim>\<open>done\<close> line in the same chunk; a pull stream that closes without a
  \<^verbatim>\<open>success\<close> line, and one that reports \<^verbatim>\<open>success\<close>.
\<close>

definition gen_chunks_malformed :: "string list" where
  "gen_chunks_malformed =
     [''{\"response\":\"a\"}\<newline>not js'', ''on\<newline>{\"response\":\"b\"}\<newline>{\"resp'']"

definition gen_chunks_done :: "string list" where
  "gen_chunks_done = [''{\"response\":\"a\"}\<newline>{\"response\":\"\",\"done\":true}\<newline>'']"

definition gen_chunks_after_done :: "string list" where
  "gen_chunks_after_done =
     [''{\"response\":\"a\"}\<newline>{\"response\":\"\",\"done\":true}\<newline>{\"response\":\"b\"}\<newline>'']"

definition pull_chunks_open :: "string list" where
  "pull_chunks_open =
     [''{\"status\":\"pulling\",\"completed\":5,\"total\":10}\<newline>garbage\<newline>{\"status\":\"verif'',
      ''ying\"}\<newline>'']"

definition pull_chunks_success :: "string list" where
  "pull_chunks_success =
     [''{\"status\":\"pulling\",\"completed\":5,\"total\":10}\<newline>{\"status\":\"success\"}\<newline>'']"

section \<open>Facades: calls of startServer while a start is in flight\<close>

text \<open>
  Counterexample to claim C1. From a fresh facade the first call of \<^verbatim>\<open>startServer\<close>
  sets the process handle and leaves the ready flag false; a second call in that state
  spawns again, so two backing processes have been spawned. This holds for the TTS
  facade and for the video-analyzer facade.
\<close>

theorem startServer_in_flight_counterexample:
  "serverProcess (snd (tts_startServer ''python3'' facade_init)) = Some 0
   \<and> \<not> isServerReady (snd (tts_startServer ''python3'' facade_init))
   \<and> length (spawned (snd (tts_startServer ''python3''
                 (snd (tts_startServer ''python3'' facade_init))))) = 2
   \<and> serverProcess (snd (analyzer_startServer ''python3'' facade_init)) = Some 0
   \<and> \<not> isServerReady (snd (analyzer_startServer ''python3'' facade_init))
   \<and> length (spawned (snd (analyzer_startServer ''python3''
                 (snd (analyzer_startServer ''python3'' facade_init))))) = 2"
  by (simp add: tts_startServer_def analyzer_startServer_def facade_init_def Let_def)

text \<open>
  Claim C1, amended. For both facades \<^verbatim>\<open>startServer\<close> spawns nothing exactly when
  the process handle is set and the ready flag is true. In every other state it spawns
  one more backing process and stores the new handle: when there is no handle, and also
  when a start is in flight (handle set, ready flag false); there is no guard for a
  start in flight.
\<close>

theorem startServer_guard_is_ready_only:
  "(serverProcess s \<noteq> None \<and> isServerReady s \<longrightarrow>
      tts_startServer py s = (AlreadyRunning, s)
      \<and> analyzer_startServer py s = (AlreadyRunning, s))
   \<and> (\<not> (serverProcess s \<noteq> None \<and> isServerReady s) \<longrightarrow>
      tts_startServer py s =
        (Starting (length (spawned s)),
         s\<lparr>serverProcess := Some (length (spawned s)), spawned := spawned s @ [py]\<rparr>)
      \<and> analyzer_startServer py s =
        (Starting (length (spawned s)),
         s\<lparr>serverProcess := Some (length (spawned s)), spawned := spawned s @ [py]\<rparr>))"
  by (simp add: tts_startServer_def analyzer_startServer_def Let_def)

text \<open>
  The amended claim at the state a first call leaves behind, at a ready facade, and at a
  fresh facade, which has no handle.
\<close>

theorem startServer_guard_is_ready_only_witness:
  "serverProcess facade_init = None
   \<and> tts_startServer ''python3'' facade_init
      = (Starting 0, \<lparr>serverProcess = Some 0, isServerReady = False, spawned = [''python3'']\<rparr>)
   \<and> analyzer_startServer ''python3'' facade_init
      = (Starting 0, \<lparr>serverProcess = Some 0, isServerReady = False, spawned = [''python3'']\<rparr>)
   \<and> serverProcess \<lparr>serverProcess = Some 0, isServerReady = False, spawned = [''python3'']\<rparr> \<noteq> None
   \<and> \<not> isServerReady \<lparr>serverProcess = Some 0, isServerReady = False, spawned = [''python3'']\<rparr>
   \<and> tts_startServer ''python3''
        \<lparr>serverProcess = Some 0, isServerReady = False, spawned = [''python3'']\<rparr>
      = (Starting 1,
         \<lparr>serverProcess = Some 1, isServerReady = False, spawned = [''python3'', ''python3'']\<rparr>)
   \<and> analyzer_startServer ''python3''
        \<lparr>serverProcess = Some 0, isServerReady = False, spawned = [''python3'']\<rparr>
      = (Starting 1,
         \<lparr>serverProcess = Some 1, isServerReady = False, spawned = [''python3'', ''python3'']\<rparr>)
   \<and> tts_startServer ''python3''
        \<lparr>serverProcess = Some 0, isServerReady = True, spawned = [''python3'']\<rparr>
      = (AlreadyRunning,
         \<lparr>serverProcess = Some 0, isServerReady = True, spawned = [''python3'']\<rparr>)"
  using startServer_guard_is_ready_only
          [of "\<lparr>serverProcess = Some 0, isServerReady = False, spawned = [''python3'']\<rparr>"
              "''python3''"]
        startServer_guard_is_ready_only
          [of "\<lparr>serverProcess = Some 0, isServerReady = True, spawned = [''python3'']\<rparr>"
              "''python3''"]
        startServer_guard_is_ready_only [of facade_init "''python3''"]
  by (simp add: facade_init_def)

section \<open>Transcription: the registry of active jobs\<close>

lemma show_nat_2000: "show_nat 2000 = ''2000''"
  by (simp add: show_nat.simps)

lemma show_nat_1000: "show_nat 1000 = ''1000''"
  by (simp add: show_nat.simps)

lemma needsConversion_wav: "needsConversion ''/in/a.wav'' = False"
  by (simp add: needsConversion_def extname_def basename_def toLowerCase_def lower_char_def
      SUPPORTED_FORMATS_def Let_def)

lemma needsConversion_m4a: "needsConversion ''/in/b.m4a'' = True"
  by (simp add: needsConversion_def extname_def basename_def toLowerCase_def lower_char_def
      SUPPORTED_FORMATS_def Let_def)

lemma transcribe_sample_wav:
  "transcribe sample_env ''/in/a.wav'' sample_opts sample_world =
     (Inr \<lparr>job_file = ''/in/a.wav'', job_converted = None,
           job_outputBase = ''/tmp/whisper-2000'', job_language = None, job_proc = 0\<rparr>,
      sample_world\<lparr>nspawn := 1, activeTranscriptions := [''/in/a.wav'' \<mapsto> 0],
        trace := [SpawnWhisper 0 [Str ''-m'', Str ''/models/ggml-tiny.bin'', Str ''-f'',
                    Str ''/in/a.wav'', Str ''-oj'', Str ''-of'', Str ''/tmp/whisper-2000'',
                    Str ''-t'', Num 6]]\<rparr>)"
  by (simp add: transcribe_def sample_env_def sample_opts_def sample_world_def Let_def
      str_or_def getModelPath_def needsConversion_wav outputBase_def show_nat_2000 threads_def)

lemma convertToWav_frame:
  "activeTranscriptions (snd (convertToWav e f w)) = activeTranscriptions w"
  "nspawn (snd (convertToWav e f w)) = nspawn w"
  by (simp_all add: convertToWav_def Let_def split: conv_run.splits option.splits)

lemma convertToWav_registry:
  "fst (convertToWav e f (w\<lparr>activeTranscriptions := m\<rparr>)) = fst (convertToWav e f w)"
  by (cases "conversion e") (auto simp add: convertToWav_def Let_def split: option.splits)

text \<open>
  Counterexample to claim C2. The first \<^verbatim>\<open>transcribe\<close> of \<^verbatim>\<open>/in/a.wav\<close> registers
  process 0 under the file path. A second \<^verbatim>\<open>transcribe\<close> of the same path, before
  any event of the first, does not fail: it returns a job on process 1, and the registry
  entry of the path now holds process 1.
\<close>

theorem transcribe_duplicate_counterexample:
  "activeTranscriptions (snd (transcribe sample_env ''/in/a.wav'' sample_opts sample_world))
     ''/in/a.wav'' = Some 0
   \<and> fst (transcribe sample_env ''/in/a.wav'' sample_opts
            (snd (transcribe sample_env ''/in/a.wav'' sample_opts sample_world)))
      = Inr \<lparr>job_file = ''/in/a.wav'', job_converted = None,
             job_outputBase = ''/tmp/whisper-2000'', job_language = None, job_proc = 1\<rparr>
   \<and> activeTranscriptions
        (snd (transcribe sample_env ''/in/a.wav'' sample_opts
               (snd (transcribe sample_env ''/in/a.wav'' sample_opts sample_world))))
        ''/in/a.wav'' = Some 1"
  unfolding transcribe_sample_wav
  by (simp add: transcribe_def sample_env_def sample_opts_def sample_world_def Let_def
      str_or_def getModelPath_def needsConversion_wav outputBase_def show_nat_2000 threads_def)

text \<open>
  Claim C2, amended. Starting a transcription for a file path that already has an active
  job is not rejected: the outcome of \<^verbatim>\<open>transcribe\<close> does not depend on the registry
  of active jobs, and a call that spawns the recognition process overwrites the registry
  entry of the file path with the new handle. A call that fails before the spawn (model
  not downloaded, file not found, conversion failed) spawns nothing and leaves the
  registry as it was. The error event of a job (its process could not be started) and its
  close event delete the registry entry of the job's file path, whichever process the
  entry holds by then.
\<close>

theorem transcribe_supersedes_registry_entry:
  "fst (transcribe e f opts (w\<lparr>activeTranscriptions := m\<rparr>)) = fst (transcribe e f opts w)
   \<and> (case fst (transcribe e f opts w) of
        Inr j \<Rightarrow>
          job_proc j = nspawn w
          \<and> nspawn (snd (transcribe e f opts w)) = Suc (nspawn w)
          \<and> activeTranscriptions (snd (transcribe e f opts w))
              = (activeTranscriptions w)(f \<mapsto> job_proc j)
      | Inl err \<Rightarrow>
          (\<exists>x. err = ModelNotDownloaded x \<or> err = FileNotFound x \<or> err = ConversionFailed x)
          \<and> nspawn (snd (transcribe e f opts w)) = nspawn w
          \<and> activeTranscriptions (snd (transcribe e f opts w)) = activeTranscriptions w)
   \<and> activeTranscriptions (snd (on_error j' msg w'))
       = (activeTranscriptions w')(job_file j' := None)
   \<and> activeTranscriptions (snd (on_close e j' code stderr w'))
       = (activeTranscriptions w')(job_file j' := None)"
proof -
  have ev: "activeTranscriptions (snd (on_error j' msg w'))
              = (activeTranscriptions w')(job_file j' := None)"
    "activeTranscriptions (snd (on_close e j' code stderr w'))
              = (activeTranscriptions w')(job_file j' := None)"
    by (simp_all add: on_error_def on_close_def cleanup_def Let_def split: option.splits)
  obtain r w1 where c: "convertToWav e f w = (r, w1)"
    by (cases "convertToWav e f w")
  obtain r' w1' where c': "convertToWav e f (w\<lparr>activeTranscriptions := m\<rparr>) = (r', w1')"
    by (cases "convertToWav e f (w\<lparr>activeTranscriptions := m\<rparr>)")
  have fr: "activeTranscriptions w1 = activeTranscriptions w" "nspawn w1 = nspawn w"
    using convertToWav_frame [of e f w] c by simp_all
  have fr': "nspawn w1' = nspawn w"
    using convertToWav_frame(2) [of e f "w\<lparr>activeTranscriptions := m\<rparr>"] c' by simp
  have rr: "r' = r"
    using convertToWav_registry [of e f m w] c c' by simp
  show ?thesis
    by (cases r) (simp_all add: transcribe_def Let_def c c' fr fr' rr ev)
qed

section \<open>Model download: failures\<close>

text \<open>
  The path without a redirect: on a status other than 200 the temporary file is deleted
  and the status is the error.
\<close>

lemma downloadModel_direct_failure:
  assumes "js_get MODEL_DOWNLOAD_URLS name = StrVal u" and "u \<noteq> []" and "net u = Reply r"
    and "statusCode r \<noteq> 200"
    and "\<not> ((statusCode r = 301 \<or> statusCode r = 302) \<and> str_or (location r) [] \<noteq> [])"
  shows "fst (downloadModel net dir name cb w) = Inl (HttpStatus (statusCode r))"
    and "files (snd (downloadModel net dir name cb w)) (getModelPath dir name @ ''.tmp'') = None"
  using assms by (auto simp add: downloadModel_def truthy_def Let_def create_stream_def unlink_def)

text \<open>
  The path through a redirect: when the redirect target answers with a status other than
  200, the status is the error, and the temporary file, created again by
  \<^verbatim>\<open>downloadFromUrl\<close>, is still there.
\<close>

lemma downloadModel_redirect_failure:
  assumes "js_get MODEL_DOWNLOAD_URLS name = StrVal u" and "u \<noteq> []" and "net u = Reply r"
    and "statusCode r = 301 \<or> statusCode r = 302" and "location r = Some l" and "l \<noteq> []"
    and "net l = Reply r2" and "statusCode r2 \<noteq> 200"
  shows "fst (downloadModel net dir name cb w) = Inl (HttpStatus (statusCode r2))"
    and "files (snd (downloadModel net dir name cb w)) (getModelPath dir name @ ''.tmp'') = Some []"
  using assms
  by (auto simp add: downloadModel_def downloadFromUrl_def truthy_def str_or_def Let_def
      create_stream_def unlink_def)

text \<open>
  Claim C3 at a redirected download. The catalogue URL of \<^verbatim>\<open>tiny\<close> answers 302 with a
  \<^verbatim>\<open>Location\<close>, and the redirect target answers 404. The download fails with the
  status 404 in the error, but \<^verbatim>\<open>downloadFromUrl\<close> has created the temporary file
  again and does not delete it: the file \<^verbatim>\<open>ggml-tiny.bin.tmp\<close> exists afterwards.
\<close>

theorem downloadModel_redirect_404_keeps_tmp:
  "fst (downloadModel redirect_404_net ''/models'' ''tiny'' True empty_world)
     = Inl (HttpStatus 404)
   \<and> files (snd (downloadModel redirect_404_net ''/models'' ''tiny'' True empty_world))
       ''/models/ggml-tiny.bin.tmp'' = Some []
   \<and> files (snd (downloadModel redirect_404_net ''/models'' ''tiny'' True empty_world))
       ''/models/ggml-tiny.bin'' = None"
  by (simp add: downloadModel_def redirect_404_net_def empty_world_def js_get_def
      MODEL_DOWNLOAD_URLS_def truthy_def getModelPath_def create_stream_def unlink_def
      downloadFromUrl_def str_or_def Let_def)

text \<open>
  An identifier for which the property read yields \<^verbatim>\<open>undefined\<close> fails with
  \<open>UnknownModel\<close> and leaves files and trace untouched. That is every identifier
  that is neither a key of the catalogue nor a property name of \<^verbatim>\<open>Object.prototype\<close>.
\<close>

lemma downloadModel_undefined:
  "js_get MODEL_DOWNLOAD_URLS name = Undefined
     \<Longrightarrow> downloadModel net dir name cb w = (Inl (UnknownModel name), w)"
  by (simp add: downloadModel_def truthy_def)

lemma downloadModel_absent:
  "map_of MODEL_DOWNLOAD_URLS name = None \<Longrightarrow> name \<notin> set object_prototype_keys
     \<Longrightarrow> downloadModel net dir name cb w = (Inl (UnknownModel name), w)"
  by (simp add: downloadModel_def truthy_def js_get_def)

text \<open>
  Claim C4 at the identifier \<^verbatim>\<open>constructor\<close>. It is no key of the catalogue, but
  \<^verbatim>\<open>MODEL_DOWNLOAD_URLS['constructor']\<close> is the inherited
  \<^verbatim>\<open>Object.prototype.constructor\<close>, a function and so truthy: the guard
  \<^verbatim>\<open>if (!url)\<close> lets it pass. The write stream on the temporary path is created and
  \<^verbatim>\<open>https.get\<close> is called; the failure is not \<open>UnknownModel\<close>.
\<close>

theorem downloadModel_inherited_key_passes_guard:
  "map_of MODEL_DOWNLOAD_URLS ''constructor'' = None
   \<and> fst (downloadModel net dir ''constructor'' cb w) = Inl RequestOfNonUrl
   \<and> trace (snd (downloadModel net dir ''constructor'' cb w))
       = trace w @ [CreateWriteStream (getModelPath dir ''constructor'' @ ''.tmp''),
                    HttpsGet Inherited]
   \<and> files (snd (downloadModel net dir ''constructor'' cb w))
       (getModelPath dir ''constructor'' @ ''.tmp'') = Some []"
  by (simp add: downloadModel_def js_get_def MODEL_DOWNLOAD_URLS_def object_prototype_keys_def
      truthy_def create_stream_def Let_def)

section \<open>Transcription: the close event\<close>




section \<open>Transcription: conversion and cleanup\<close>

lemma convertedPath_nonempty: "convertedPath e \<noteq> []"
  by (simp add: convertedPath_def)

lemma cleanup_removes: "job_converted j = Some c \<Longrightarrow> c \<noteq> [] \<Longrightarrow> files (cleanup j w) c = None"
  by (simp add: cleanup_def)

lemma on_close_removes:
  assumes "job_converted j = Some c" and "c \<noteq> []"
  shows "files (snd (on_close e j code stderr w)) c = None"
proof -
  let ?w1 = "cleanup j (w\<lparr>activeTranscriptions := (activeTranscriptions w)(job_file j := None)\<rparr>)"
  have "files ?w1 c = None" using assms by (rule cleanup_removes)
  then show ?thesis
    by (simp add: on_close_def Let_def split: option.splits)
qed

lemma on_error_removes:
  assumes "job_converted j = Some c" and "c \<noteq> []"
  shows "files (snd (on_error j msg w)) c = None"
  using assms by (simp add: on_error_def cleanup_removes)

lemma convertToWav_Inr:
  "convertToWav e f w = (Inr p, wc)
     \<Longrightarrow> p = convertedPath e \<and> files wc p \<noteq> None
         \<and> trace wc = trace w @ [Ffmpeg (ffmpeg_args f (convertedPath e))]"
  by (cases "conversion e") (auto simp add: convertToWav_def Let_def split: option.splits if_splits)

lemma convertToWav_Inl:
  "convertToWav e f w = (Inl m, wc) \<Longrightarrow> trace wc = trace w @ [Ffmpeg (ffmpeg_args f (convertedPath e))]"
  by (cases "conversion e") (auto simp add: convertToWav_def Let_def split: option.splits if_splits)

text \<open>
  Claim C8. For a transcription request that reaches the recognition process:
  \<^verbatim>\<open>needsConversion\<close> holds exactly when the lower-cased extension of the input
  is outside \<^verbatim>\<open>{.flac, .mp3, .ogg, .wav}\<close>; the conversion command runs, before
  the recognition process is spawned, exactly in that case, and the recognition process
  is then given the converted file. When a converted file was produced, it does not
  exist after the close handler has run, whatever the exit code (0 on the success path,
  anything else on the recognition-failure path), nor after the error handler has run
  (the recognition process failed to start); this holds in whatever state of the file
  system the event arrives.
\<close>

theorem transcribe_converts_and_cleans_up:
  assumes "transcribe e f opts w = (Inr j, w1)"
  shows "needsConversion f = (toLowerCase (extname f) \<notin> {''.flac'', ''.mp3'', ''.ogg'', ''.wav''})
    \<and> (\<exists>args. trace w1
               = trace w
                 @ (if needsConversion f
                    then [Ffmpeg [''-i'', f, ''-ar'', ''16000'', ''-ac'', ''1'', ''-c:a'', ''pcm_s16le'',
                                  ''-y'', convertedPath e]]
                    else [])
                 @ [SpawnWhisper (job_proc j) args]
             \<and> args ! 2 = Str ''-f''
             \<and> args ! 3 = Str (if needsConversion f then convertedPath e else f))
    \<and> job_converted j = (if needsConversion f then Some (convertedPath e) else None)
    \<and> (needsConversion f \<longrightarrow>
          files w1 (convertedPath e) \<noteq> None
          \<and> files (snd (on_close e j code stderr w2)) (convertedPath e) = None
          \<and> files (snd (on_error j msg w3)) (convertedPath e) = None)"
proof (cases "needsConversion f")
  case False
  with assms show ?thesis
    by (auto simp add: transcribe_def Let_def needsConversion_def SUPPORTED_FORMATS_def split: if_splits)
next
  case True
  obtain r wc where c: "convertToWav e f w = (r, wc)"
    by (cases "convertToWav e f w")
  from assms True c obtain p where r: "r = Inr p"
    by (cases r) (auto simp add: transcribe_def Let_def split: if_splits)
  from convertToWav_Inr [OF c [unfolded r]]
  have p: "p = convertedPath e" and ex: "files wc (convertedPath e) \<noteq> None"
    and trc: "trace wc = trace w @ [Ffmpeg (ffmpeg_args f (convertedPath e))]"
    by auto
  from assms True c r p have jc: "job_converted j = Some (convertedPath e)"
    by (auto simp add: transcribe_def Let_def split: if_splits)
  from assms True c r p trc
  have tr: "\<exists>args. trace w1 = trace w @ [Ffmpeg (ffmpeg_args f (convertedPath e))] @ [SpawnWhisper (job_proc j) args]
              \<and> args ! 2 = Str ''-f'' \<and> args ! 3 = Str (convertedPath e)"
    by (auto simp add: transcribe_def Let_def split: if_splits)
  from assms True c r p ex have fw1: "files w1 (convertedPath e) \<noteq> None"
    by (auto simp add: transcribe_def Let_def split: if_splits)
  show ?thesis
    using True jc tr fw1 on_close_removes [OF jc convertedPath_nonempty]
      on_error_removes [OF jc convertedPath_nonempty]
    by (simp add: needsConversion_def SUPPORTED_FORMATS_def ffmpeg_args_def)
qed

text \<open>
  A request that fails before the recognition process is spawned has run the conversion
  command at most once, and only for an input that needs conversion.
\<close>

lemma transcribe_failed_start:
  assumes "transcribe e f opts w = (Inl err, w1)"
  shows "trace w1 = trace w \<or> (needsConversion f \<and> trace w1 = trace w @ [Ffmpeg (ffmpeg_args f (convertedPath e))])"
proof -
  obtain r wc where c: "convertToWav e f w = (r, wc)"
    by (cases "convertToWav e f w")
  show ?thesis
  proof (cases r)
    case (Inl m)
    with assms c convertToWav_Inl [of e f w m wc] show ?thesis
      by (auto simp add: transcribe_def Let_def split: if_splits)
  next
    case (Inr p)
    with assms c show ?thesis
      by (auto simp add: transcribe_def Let_def split: if_splits)
  qed
qed

lemma transcribe_sample_m4a:
  "transcribe sample_env ''/in/b.m4a'' sample_opts sample_world =
     (Inr \<lparr>job_file = ''/in/b.m4a'', job_converted = Some ''/tmp/whisper-converted-1000.wav'',
           job_outputBase = ''/tmp/whisper-2000'', job_language = None, job_proc = 0\<rparr>,
      sample_world\<lparr>files := (files sample_world)(''/tmp/whisper-converted-1000.wav'' \<mapsto> ''RIFF''),
        nspawn := 1, activeTranscriptions := [''/in/b.m4a'' \<mapsto> 0],
        trace := [Ffmpeg (ffmpeg_args ''/in/b.m4a'' ''/tmp/whisper-converted-1000.wav''),
                  SpawnWhisper 0 [Str ''-m'', Str ''/models/ggml-tiny.bin'', Str ''-f'',
                    Str ''/tmp/whisper-converted-1000.wav'', Str ''-oj'', Str ''-of'', Str ''/tmp/whisper-2000'',
                    Str ''-t'', Num 6]]\<rparr>)"
  by (simp add: transcribe_def convertToWav_def sample_env_def sample_opts_def sample_world_def Let_def
      str_or_def getModelPath_def needsConversion_m4a outputBase_def convertedPath_def show_nat_2000 show_nat_1000 threads_def)


text \<open>
  Claim C8 on the sample input \<^verbatim>\<open>/in/b.m4a\<close>: the conversion runs before the
  recognition process is spawned, and the converted file is gone after a close with code
  0, after a close with code 1, and after the error event.
\<close>

theorem transcribe_converts_and_cleans_up_witness:
  "transcribe sample_env ''/in/b.m4a'' sample_opts sample_world =
     (Inr \<lparr>job_file = ''/in/b.m4a'', job_converted = Some ''/tmp/whisper-converted-1000.wav'',
           job_outputBase = ''/tmp/whisper-2000'', job_language = None, job_proc = 0\<rparr>,
      sample_world\<lparr>files := (files sample_world)(''/tmp/whisper-converted-1000.wav'' \<mapsto> ''RIFF''),
        nspawn := 1, activeTranscriptions := [''/in/b.m4a'' \<mapsto> 0],
        trace := [Ffmpeg (ffmpeg_args ''/in/b.m4a'' ''/tmp/whisper-converted-1000.wav''),
                  SpawnWhisper 0 [Str ''-m'', Str ''/models/ggml-tiny.bin'', Str ''-f'',
                    Str ''/tmp/whisper-converted-1000.wav'', Str ''-oj'', Str ''-of'', Str ''/tmp/whisper-2000'',
                    Str ''-t'', Num 6]]\<rparr>)
   \<and> needsConversion ''/in/b.m4a''
   \<and> files (snd (on_close sample_env
         \<lparr>job_file = ''/in/b.m4a'', job_converted = Some ''/tmp/whisper-converted-1000.wav'',
           job_outputBase = ''/tmp/whisper-2000'', job_language = None, job_proc = 0\<rparr>
         (Some 0) [] (snd (transcribe sample_env ''/in/b.m4a'' sample_opts sample_world))))
       ''/tmp/whisper-converted-1000.wav'' = None
   \<and> files (snd (on_close sample_env
         \<lparr>job_file = ''/in/b.m4a'', job_converted = Some ''/tmp/whisper-converted-1000.wav'',
           job_outputBase = ''/tmp/whisper-2000'', job_language = None, job_proc = 0\<rparr>
         (Some 1) ''failed'' (snd (transcribe sample_env ''/in/b.m4a'' sample_opts sample_world))))
       ''/tmp/whisper-converted-1000.wav'' = None
   \<and> files (snd (on_error
         \<lparr>job_file = ''/in/b.m4a'', job_converted = Some ''/tmp/whisper-converted-1000.wav'',
           job_outputBase = ''/tmp/whisper-2000'', job_language = None, job_proc = 0\<rparr>
         ''spawn ENOENT'' (snd (transcribe sample_env ''/in/b.m4a'' sample_opts sample_world))))
       ''/tmp/whisper-converted-1000.wav'' = None"
proof -
  have cp: "convertedPath sample_env = ''/tmp/whisper-converted-1000.wav''"
    by (simp add: convertedPath_def sample_env_def show_nat_1000)
  let ?w = "snd (transcribe sample_env ''/in/b.m4a'' sample_opts sample_world)"
  let ?j = "\<lparr>job_file = ''/in/b.m4a'', job_converted = Some ''/tmp/whisper-converted-1000.wav'',
             job_outputBase = ''/tmp/whisper-2000'', job_language = None, job_proc = 0\<rparr>"
  have n: "needsConversion ''/in/b.m4a''"
    by (simp add: needsConversion_m4a)
  from transcribe_converts_and_cleans_up
         [OF transcribe_sample_m4a, of "Some 0" "[]" ?w "''spawn ENOENT''" ?w]
  have a: "needsConversion ''/in/b.m4a'' \<longrightarrow>
             files (snd (on_close sample_env ?j (Some 0) [] ?w)) (convertedPath sample_env) = None
             \<and> files (snd (on_error ?j ''spawn ENOENT'' ?w)) (convertedPath sample_env) = None"
    by blast
  from transcribe_converts_and_cleans_up
         [OF transcribe_sample_m4a, of "Some 1" "''failed''" ?w "''spawn ENOENT''" ?w]
  have b: "needsConversion ''/in/b.m4a'' \<longrightarrow>
             files (snd (on_close sample_env ?j (Some 1) ''failed'' ?w)) (convertedPath sample_env) = None"
    by blast
  from a b n transcribe_sample_m4a show ?thesis
    unfolding cp by blast
qed

section \<open>Rounding to a double is monotone\<close>

lemma powi_pos: "0 < (2::rat) powi k"
  by (simp add: power_int_def)

lemma powi_Suc: "(2::rat) powi (k + 1) = 2 * 2 powi k"
  by (simp add: power_int_add)

lemma powi_mono: "a \<le> b \<Longrightarrow> (2::rat) powi a \<le> 2 powi b"
  by (rule power_int_increasing) simp_all

lemma powi_nat: "0 \<le> k \<Longrightarrow> (2::rat) powi k = of_int (2 ^ nat k)"
  by (simp add: power_int_def)

lemma ilog2_bounds_ge1:
  assumes "1 \<le> x"
  shows "2 powi (ilog2 x) \<le> x" and "x < 2 powi (ilog2 x + 1)"
proof -
  let ?n = "\<lfloor>x\<rfloor>"
  from assms have n: "0 < ?n" by simp
  from bitlen_bounds [OF n] have lo: "2 ^ nat (bitlen ?n - 1) \<le> ?n" and hi: "?n < 2 ^ nat (bitlen ?n)"
    by simp_all
  from n have b: "1 \<le> bitlen ?n"
    using bitlen_eq_zero_iff [of ?n] bitlen_nonneg [of ?n] by linarith
  have e: "ilog2 x = bitlen ?n - 1" using assms by (simp add: ilog2_def)
  have "(2::rat) powi (ilog2 x) = of_int (2 ^ nat (bitlen ?n - 1))"
    using b by (simp add: e powi_nat)
  also have "\<dots> \<le> of_int ?n" using lo by (simp only: of_int_le_iff)
  also have "\<dots> \<le> x" by simp
  finally show "2 powi (ilog2 x) \<le> x" .
  have "x < of_int (?n + 1)" by linarith
  also have "\<dots> \<le> of_int (2 ^ nat (bitlen ?n))" using hi by (simp only: of_int_le_iff)
  also have "\<dots> = 2 powi (ilog2 x + 1)" using b by (simp add: e powi_nat)
  finally show "x < 2 powi (ilog2 x + 1)" .
qed

lemma ilog2_bounds_lt1:
  assumes "0 < x" and "x < 1"
  shows "2 powi (ilog2 x) \<le> x" and "x < 2 powi (ilog2 x + 1)"
proof -
  let ?y = "1 / x"
  let ?m = "\<lceil>?y\<rceil> - 1"
  from assms have y: "1 < ?y" by simp
  then have m: "0 < ?m" by linarith
  from bitlen_bounds [OF m] have lo: "2 ^ nat (bitlen ?m - 1) \<le> ?m" and hi: "?m < 2 ^ nat (bitlen ?m)"
    by simp_all
  from m have b: "1 \<le> bitlen ?m"
    using bitlen_eq_zero_iff [of ?m] bitlen_nonneg [of ?m] by linarith
  have e: "ilog2 x = - bitlen ?m" using assms by (simp add: ilog2_def)
  have p1: "(2::rat) powi (ilog2 x) = 1 / of_int (2 ^ nat (bitlen ?m))"
    using b by (simp add: e power_int_def nat_diff_distrib field_simps)
  have p2: "(2::rat) powi (ilog2 x + 1) = 1 / of_int (2 ^ nat (bitlen ?m - 1))"
  proof (cases "bitlen ?m = 1")
    case True
    then show ?thesis by (simp add: e)
  next
    case False
    with b have "ilog2 x + 1 < 0" by (simp add: e)
    moreover have "nat (- (ilog2 x + 1)) = nat (bitlen ?m - 1)" by (simp add: e)
    ultimately show ?thesis by (simp add: power_int_def field_simps)
  qed
  have "?y \<le> of_int (?m + 1)" by simp
  also have "\<dots> \<le> of_int (2 ^ nat (bitlen ?m))" using hi by (simp only: of_int_le_iff)
  finally have "?y \<le> of_int (2 ^ nat (bitlen ?m))" .
  then have "1 / of_int (2 ^ nat (bitlen ?m)) \<le> x"
    using assms(1) by (simp add: field_simps)
  then show "2 powi (ilog2 x) \<le> x" by (simp only: p1)
  have "of_int (2 ^ nat (bitlen ?m - 1)) \<le> (of_int ?m :: rat)" using lo by (simp only: of_int_le_iff)
  also have "(of_int ?m :: rat) < ?y" by linarith
  finally have "(of_int (2 ^ nat (bitlen ?m - 1)) :: rat) < ?y" .
  then have "x < 1 / of_int (2 ^ nat (bitlen ?m - 1))"
    using assms(1) by (simp add: field_simps)
  then show "x < 2 powi (ilog2 x + 1)" by (simp only: p2)
qed

lemma ilog2_bounds:
  assumes "0 < x"
  shows "2 powi (ilog2 x) \<le> x" and "x < 2 powi (ilog2 x + 1)"
  using assms ilog2_bounds_ge1 [of x] ilog2_bounds_lt1 [of x]
  by (cases "1 \<le> x"; simp)+

lemma round_even_ge: "of_int n \<le> x \<Longrightarrow> n \<le> round_even x"
  unfolding round_even_def by (auto simp add: le_floor_iff) linarith+

lemma round_even_le: "x \<le> of_int n \<Longrightarrow> round_even x \<le> n"
proof (cases "x = of_int n")
  case True
  then show ?thesis by (simp add: round_even_def)
next
  case False
  assume "x \<le> of_int n"
  with False have "x < of_int n" by simp
  then have "\<lfloor>x\<rfloor> < n" by (simp add: floor_less_iff)
  moreover have "round_even x \<le> \<lfloor>x\<rfloor> + 1"
    unfolding round_even_def by auto
  ultimately show ?thesis by linarith
qed

lemma round_even_mono: "x \<le> y \<Longrightarrow> round_even x \<le> round_even y"
proof (cases "\<lfloor>x\<rfloor> = \<lfloor>y\<rfloor>")
  case True
  assume "x \<le> y"
  with True show ?thesis
    unfolding round_even_def by auto
next
  case False
  assume xy: "x \<le> y"
  with False have "\<lfloor>x\<rfloor> + 1 \<le> \<lfloor>y\<rfloor>"
    using floor_mono [OF xy] by linarith
  moreover have "round_even x \<le> \<lfloor>x\<rfloor> + 1"
    unfolding round_even_def by auto
  moreover have "\<lfloor>y\<rfloor> \<le> round_even y"
    unfolding round_even_def by auto
  ultimately show ?thesis by linarith
qed

lemma powi_split: "(2::rat) powi e = of_int (2 ^ 52) * 2 powi (e - 52)"
proof -
  have "e = 52 + (e - 52)" by simp
  then have "(2::rat) powi e = 2 powi (52 + (e - 52))" by (simp only:)
  also have "\<dots> = 2 powi 52 * 2 powi (e - 52)" by (rule power_int_add) simp
  also have "(2::rat) powi 52 = of_int (2 ^ 52)" by (simp add: power_int_def)
  finally show ?thesis .
qed

lemma powi_split': "(2::rat) powi (e + 1) = of_int (2 ^ 53) * 2 powi (e - 52)"
proof -
  have "e + 1 = 53 + (e - 52)" by simp
  then have "(2::rat) powi (e + 1) = 2 powi (53 + (e - 52))" by (simp only:)
  also have "\<dots> = 2 powi 53 * 2 powi (e - 52)" by (rule power_int_add) simp
  also have "(2::rat) powi 53 = of_int (2 ^ 53)" by (simp add: power_int_def)
  finally show ?thesis .
qed

lemma fl_pos_def: "0 < x \<Longrightarrow> fl x = of_int (round_even (x / 2 powi (ilog2 x - 52))) * 2 powi (ilog2 x - 52)"
  by (simp add: fl_def)

lemma fl_lower:
  assumes "0 < x"
  shows "2 powi (ilog2 x) \<le> fl x"
proof -
  let ?u = "(2::rat) powi (ilog2 x - 52)"
  have u: "0 < ?u" by (rule powi_pos)
  from ilog2_bounds(1) [OF assms] have "of_int (2 ^ 52) * ?u \<le> x"
    by (simp only: powi_split [of "ilog2 x"])
  with u have "of_int (2 ^ 52) \<le> x / ?u" by (simp add: pos_le_divide_eq)
  then have "2 ^ 52 \<le> round_even (x / ?u)" by (rule round_even_ge)
  then have "(of_int (2 ^ 52) :: rat) \<le> of_int (round_even (x / ?u))" by (simp only: of_int_le_iff)
  with u have "of_int (2 ^ 52) * ?u \<le> of_int (round_even (x / ?u)) * ?u"
    by (simp only: mult_le_cancel_right_pos)
  then show ?thesis
    by (simp only: powi_split [of "ilog2 x"] fl_pos_def [OF assms])
qed

lemma fl_upper:
  assumes "0 < x"
  shows "fl x \<le> 2 powi (ilog2 x + 1)"
proof -
  let ?u = "(2::rat) powi (ilog2 x - 52)"
  have u: "0 < ?u" by (rule powi_pos)
  from ilog2_bounds(2) [OF assms] have "x < of_int (2 ^ 53) * ?u"
    by (simp only: powi_split' [of "ilog2 x"])
  with u have "x / ?u \<le> of_int (2 ^ 53)" by (simp add: pos_divide_le_eq)
  then have "round_even (x / ?u) \<le> 2 ^ 53" by (rule round_even_le)
  then have "(of_int (round_even (x / ?u)) :: rat) \<le> of_int (2 ^ 53)" by (simp only: of_int_le_iff)
  with u have "of_int (round_even (x / ?u)) * ?u \<le> of_int (2 ^ 53) * ?u"
    by (simp only: mult_le_cancel_right_pos)
  then show ?thesis
    by (simp only: powi_split' [of "ilog2 x"] fl_pos_def [OF assms])
qed

lemma fl_nonneg: "0 \<le> fl x"
proof (cases "0 < x")
  case True
  from fl_lower [OF True] powi_pos [of "ilog2 x"] show ?thesis by linarith
next
  case False
  then show ?thesis by (simp add: fl_def)
qed

lemma ilog2_mono:
  assumes "0 < x" and "x \<le> y"
  shows "ilog2 x \<le> ilog2 y"
proof (rule ccontr)
  assume "\<not> ilog2 x \<le> ilog2 y"
  then have "ilog2 y + 1 \<le> ilog2 x" by simp
  then have "(2::rat) powi (ilog2 y + 1) \<le> 2 powi (ilog2 x)" by (rule powi_mono)
  moreover from assms have y: "0 < y" by simp
  ultimately show False
    using ilog2_bounds(2) [OF y] ilog2_bounds(1) [OF assms(1)] assms(2) by linarith
qed

lemma fl_mono:
  assumes "x \<le> y"
  shows "fl x \<le> fl y"
proof (cases "0 < x")
  case False
  then have "fl x = 0" by (simp add: fl_def)
  with fl_nonneg [of y] show ?thesis by simp
next
  case True
  with assms have y: "0 < y" by simp
  show ?thesis
  proof (cases "ilog2 x = ilog2 y")
    case same: True
    let ?u = "(2::rat) powi (ilog2 y - 52)"
    have u: "0 < ?u" by (rule powi_pos)
    from assms u have "x / ?u \<le> y / ?u" by (simp add: divide_right_mono)
    then have "round_even (x / ?u) \<le> round_even (y / ?u)" by (rule round_even_mono)
    then have "(of_int (round_even (x / ?u)) :: rat) \<le> of_int (round_even (y / ?u))"
      by (simp only: of_int_le_iff)
    with u have "of_int (round_even (x / ?u)) * ?u \<le> of_int (round_even (y / ?u)) * ?u"
      by (simp only: mult_le_cancel_right_pos)
    then show ?thesis
      by (simp only: fl_pos_def [OF True] fl_pos_def [OF y] same)
  next
    case False
    with ilog2_mono [OF True assms] have "ilog2 x + 1 \<le> ilog2 y" by simp
    then have "(2::rat) powi (ilog2 x + 1) \<le> 2 powi (ilog2 y)" by (rule powi_mono)
    with fl_upper [OF True] fl_lower [OF y] show ?thesis by linarith
  qed
qed


lemma percent_mono: "0 < t \<Longrightarrow> d \<le> d' \<Longrightarrow> percent d t \<le> percent d' t"
  unfolding percent_def
  by (intro round_mono fl_mono mult_right_mono divide_right_mono) simp_all

lemma percent_500_1000: "percent 500 1000 = 50"
  by (simp add: percent_def, code_simp)

lemma percent_1000_1000: "percent 1000 1000 = 100"
  by (simp add: percent_def, code_simp)

lemma percent_23_40: "percent 23 40 = 57"
  by (simp add: percent_def, code_simp)

lemma percent_40_40: "percent 40 40 = 100"
  by (simp add: percent_def, code_simp)

lemma exact_percent_23_40: "round ((of_nat 23 / of_int 40) * (100::rat)) = 58"
  by (simp, code_simp)


section \<open>Model download: progress\<close>

lemma on_data_no_total: "\<not> 0 < t \<Longrightarrow> on_data (Some t) cb d chunks = []"
  by (induction chunks arbitrary: d) (simp_all add: Let_def)

lemma on_data_NaN: "on_data None cb d chunks = []"
  by (induction chunks arbitrary: d) (simp_all add: Let_def)

lemma on_data_no_callback: "on_data tot False d chunks = []"
  by (induction chunks arbitrary: d) (simp_all add: Let_def split: option.splits)

lemma totalSize_of_absent: "contentLength r = None \<Longrightarrow> totalSize_of r = Some 0"
  by (simp add: totalSize_of_def str_or_def parseInt10_def is_space_def is_digit_def digits_val_def digit_val_def)

lemma on_data_closed_form:
  "0 < t \<Longrightarrow> on_data (Some t) True d chunks
     = map (\<lambda>k. percent (d + length (concat (take k chunks))) t) [1..<Suc (length chunks)]"
proof (induction chunks arbitrary: d)
  case Nil
  then show ?case by simp
next
  case (Cons c cs)
  have "[1..<Suc (length (c # cs))] = 1 # map Suc [1..<Suc (length cs)]"
    by (simp add: upt_conv_Cons map_Suc_upt del: upt_Suc)
  then show ?case
    using Cons by (simp add: Let_def o_def add.assoc del: upt_Suc)
qed


lemma progress_of_append [simp]: "progress_of (xs @ ys) = progress_of xs @ progress_of ys"
  by (induction xs rule: progress_of.induct) simp_all

lemma progress_of_map_Progress [simp]: "progress_of (map Progress ps) = ps"
  by (induction ps) simp_all

lemma pipe_body_progress:
  "progress_of (trace (pipe_body p cb r w))
     = progress_of (trace w) @ on_data (totalSize_of r) cb 0 (body r)"
  by (simp add: pipe_body_def)

lemma downloadFromUrl_200:
  assumes "net u = Reply r" and "statusCode r = 200"
  shows "progress_of (trace (snd (downloadFromUrl net u p cb w)))
           = progress_of (trace w) @ on_data (totalSize_of r) cb 0 (body r)"
  using assms by (simp add: downloadFromUrl_def Let_def pipe_body_progress create_stream_def)

lemma downloadModel_200:
  assumes "js_get MODEL_DOWNLOAD_URLS name = StrVal u" and "u \<noteq> []"
    and "net u = Reply r" and "statusCode r = 200"
  shows "progress_of (trace (snd (downloadModel net dir name cb w)))
           = progress_of (trace w) @ on_data (totalSize_of r) cb 0 (body r)"
  using assms
  by (simp add: downloadModel_def truthy_def Let_def pipe_body_progress create_stream_def rename_def)

lemma downloadModel_redirect_200:
  assumes "js_get MODEL_DOWNLOAD_URLS name = StrVal u" and "u \<noteq> []"
    and "net u = Reply r0" and "statusCode r0 = 301 \<or> statusCode r0 = 302"
    and "location r0 = Some l" and "l \<noteq> []"
    and "net l = Reply r" and "statusCode r = 200"
  shows "progress_of (trace (snd (downloadModel net dir name cb w)))
           = progress_of (trace w) @ on_data (totalSize_of r) cb 0 (body r)"
  using assms
  by (auto simp add: downloadModel_def downloadFromUrl_def truthy_def str_or_def Let_def
      pipe_body_progress create_stream_def unlink_def rename_def)

lemma js_get_tiny:
  "js_get MODEL_DOWNLOAD_URLS ''tiny''
     = StrVal ''https://huggingface.co/ggerganov/whisper.cpp/resolve/main/ggml-tiny.bin''"
  by (simp add: js_get_def MODEL_DOWNLOAD_URLS_def)

lemma totalSize_of_samples:
  "totalSize_of reply_1000 = Some 1000" "totalSize_of reply_40 = Some 40"
  by (simp_all add: totalSize_of_def reply_1000_def reply_40_def str_or_def parseInt10_def
      is_space_def is_digit_def digits_val_def digit_val_def)

lemma on_data_samples:
  "on_data (Some 1000) True 0 (body reply_1000) = [50, 100]"
  "on_data (Some 40) True 0 (body reply_40) = [57, 100]"
  by (simp_all add: reply_1000_def reply_40_def Let_def percent_500_1000 percent_1000_1000
      percent_23_40 percent_40_40)

text \<open>
  Counterexample to claim C6. The catalogue URL of \<^verbatim>\<open>tiny\<close> answers with 40 bytes in
  chunks of 23 and 17 and \<^verbatim>\<open>Content-Length: 40\<close>. After the first chunk the callback
  is called with 57: in doubles 23 / 40 is just below 0.575 and its product with 100 is
  just below 57.5. The percentage 57.5 itself rounds to 58.
\<close>

theorem download_percent_23_of_40_counterexample:
  "progress_of (trace (snd (downloadModel (serve reply_40) ''/models'' ''tiny'' True empty_world)))
     = [57, 100]
   \<and> length (body reply_40 ! 0) = 23
   \<and> totalSize_of reply_40 = Some 40
   \<and> round ((of_nat 23 / of_int 40) * (100::rat)) = 58"
proof -
  have "progress_of (trace (snd (downloadModel (serve reply_40) ''/models'' ''tiny'' True empty_world)))
          = progress_of (trace empty_world) @ on_data (totalSize_of reply_40) True 0 (body reply_40)"
    by (rule downloadModel_200 [OF js_get_tiny]) (simp_all add: serve_def reply_40_def)
  then have a: "progress_of (trace (snd (downloadModel (serve reply_40) ''/models'' ''tiny'' True
                  empty_world))) = [57, 100]"
    by (simp add: totalSize_of_samples on_data_samples empty_world_def)
  have b: "length (body reply_40 ! 0) = 23"
    by (simp add: reply_40_def)
  show ?thesis
    using a b totalSize_of_samples(2) exact_percent_23_40 by (intro conjI)
qed

text \<open>
  Claim C6, amended. During a model download, through \<^verbatim>\<open>downloadModel\<close> directly,
  through its redirect, or through \<^verbatim>\<open>downloadFromUrl\<close>, when the reply with status
  200 carries a \<^verbatim>\<open>Content-Length\<close> that parses to a positive total, the progress
  callback is called once per received chunk, in order, with
  \<^verbatim>\<open>Math.round((downloaded / total) * 100)\<close> for the bytes received up to and
  including that chunk, where the division and the multiplication are those of doubles,
  each rounded to the nearest double. The byte counts are taken up to \<open>2\<^sup>5\<^sup>3\<close>, where
  they are doubles themselves. When the header is absent the callback is never called
  for that download.
\<close>

theorem download_reports_double_rounded_percent:
  "(js_get MODEL_DOWNLOAD_URLS name = StrVal u \<and> u \<noteq> [] \<and> net u = Reply r \<and> statusCode r = 200
      \<and> totalSize_of r = Some t \<and> 0 < t
      \<and> t \<le> 2 ^ 53 \<and> length (concat (body r)) \<le> 2 ^ 53 \<longrightarrow>
      progress_of (trace (snd (downloadModel net dir name True w)))
        = progress_of (trace w)
          @ map (\<lambda>k. round (fl (fl (of_nat (length (concat (take k (body r)))) / of_int t) * 100)))
              [1..<Suc (length (body r))])
   \<and> (js_get MODEL_DOWNLOAD_URLS name = StrVal u \<and> u \<noteq> [] \<and> net u = Reply r0
      \<and> (statusCode r0 = 301 \<or> statusCode r0 = 302) \<and> location r0 = Some l \<and> l \<noteq> []
      \<and> net l = Reply r' \<and> statusCode r' = 200 \<and> totalSize_of r' = Some t' \<and> 0 < t'
      \<and> t' \<le> 2 ^ 53 \<and> length (concat (body r')) \<le> 2 ^ 53 \<longrightarrow>
      progress_of (trace (snd (downloadModel net dir name True w)))
        = progress_of (trace w)
          @ map (\<lambda>k. round (fl (fl (of_nat (length (concat (take k (body r')))) / of_int t') * 100)))
              [1..<Suc (length (body r'))])
   \<and> (net u = Reply r \<and> statusCode r = 200 \<and> totalSize_of r = Some t \<and> 0 < t
      \<and> t \<le> 2 ^ 53 \<and> length (concat (body r)) \<le> 2 ^ 53 \<longrightarrow>
      progress_of (trace (snd (downloadFromUrl net u p True w)))
        = progress_of (trace w)
          @ map (\<lambda>k. round (fl (fl (of_nat (length (concat (take k (body r)))) / of_int t) * 100)))
              [1..<Suc (length (body r))])
   \<and> (js_get MODEL_DOWNLOAD_URLS name = StrVal u \<and> u \<noteq> [] \<and> net u = Reply r \<and> statusCode r = 200
      \<and> contentLength r = None \<longrightarrow>
      progress_of (trace (snd (downloadModel net dir name cb w))) = progress_of (trace w))
   \<and> (js_get MODEL_DOWNLOAD_URLS name = StrVal u \<and> u \<noteq> [] \<and> net u = Reply r0
      \<and> (statusCode r0 = 301 \<or> statusCode r0 = 302) \<and> location r0 = Some l \<and> l \<noteq> []
      \<and> net l = Reply r' \<and> statusCode r' = 200 \<and> contentLength r' = None \<longrightarrow>
      progress_of (trace (snd (downloadModel net dir name cb w))) = progress_of (trace w))
   \<and> (net u = Reply r \<and> statusCode r = 200 \<and> contentLength r = None \<longrightarrow>
      progress_of (trace (snd (downloadFromUrl net u p cb w))) = progress_of (trace w))"
proof -
  have cf: "\<And>t chunks. 0 < t \<Longrightarrow> on_data (Some t) True 0 chunks
      = map (\<lambda>k. round (fl (fl (of_nat (length (concat (take k chunks))) / of_int t) * 100)))
          [1..<Suc (length chunks)]"
    using on_data_closed_form by (simp add: percent_def)
  have ab: "\<And>r cb chunks. contentLength r = None \<Longrightarrow> on_data (totalSize_of r) cb 0 chunks = []"
    by (simp add: totalSize_of_absent on_data_no_total)
  show ?thesis
  proof (intro conjI impI)
    assume h: "js_get MODEL_DOWNLOAD_URLS name = StrVal u \<and> u \<noteq> [] \<and> net u = Reply r
        \<and> statusCode r = 200 \<and> totalSize_of r = Some t \<and> 0 < t
      \<and> t \<le> 2 ^ 53 \<and> length (concat (body r)) \<le> 2 ^ 53"
    then show "progress_of (trace (snd (downloadModel net dir name True w)))
        = progress_of (trace w)
          @ map (\<lambda>k. round (fl (fl (of_nat (length (concat (take k (body r)))) / of_int t) * 100)))
              [1..<Suc (length (body r))]"
      using downloadModel_200 [of name u net r dir True w] cf [of t "body r"] by simp
  next
    assume h: "js_get MODEL_DOWNLOAD_URLS name = StrVal u \<and> u \<noteq> [] \<and> net u = Reply r0
      \<and> (statusCode r0 = 301 \<or> statusCode r0 = 302) \<and> location r0 = Some l \<and> l \<noteq> []
      \<and> net l = Reply r' \<and> statusCode r' = 200 \<and> totalSize_of r' = Some t' \<and> 0 < t'
      \<and> t' \<le> 2 ^ 53 \<and> length (concat (body r')) \<le> 2 ^ 53"
    then show "progress_of (trace (snd (downloadModel net dir name True w)))
        = progress_of (trace w)
          @ map (\<lambda>k. round (fl (fl (of_nat (length (concat (take k (body r')))) / of_int t') * 100)))
              [1..<Suc (length (body r'))]"
      using downloadModel_redirect_200 [of name u net r0 l r' dir True w] cf [of t' "body r'"]
      by simp
  next
    assume h: "net u = Reply r \<and> statusCode r = 200 \<and> totalSize_of r = Some t \<and> 0 < t
      \<and> t \<le> 2 ^ 53 \<and> length (concat (body r)) \<le> 2 ^ 53"
    then show "progress_of (trace (snd (downloadFromUrl net u p True w)))
        = progress_of (trace w)
          @ map (\<lambda>k. round (fl (fl (of_nat (length (concat (take k (body r)))) / of_int t) * 100)))
              [1..<Suc (length (body r))]"
      using downloadFromUrl_200 [of net u r p True w] cf [of t "body r"] by simp
  next
    assume h: "js_get MODEL_DOWNLOAD_URLS name = StrVal u \<and> u \<noteq> [] \<and> net u = Reply r
      \<and> statusCode r = 200 \<and> contentLength r = None"
    then show "progress_of (trace (snd (downloadModel net dir name cb w))) = progress_of (trace w)"
      using downloadModel_200 [of name u net r dir cb w] ab [of r cb "body r"] by simp
  next
    assume h: "js_get MODEL_DOWNLOAD_URLS name = StrVal u \<and> u \<noteq> [] \<and> net u = Reply r0
      \<and> (statusCode r0 = 301 \<or> statusCode r0 = 302) \<and> location r0 = Some l \<and> l \<noteq> []
      \<and> net l = Reply r' \<and> statusCode r' = 200 \<and> contentLength r' = None"
    then show "progress_of (trace (snd (downloadModel net dir name cb w))) = progress_of (trace w)"
      using downloadModel_redirect_200 [of name u net r0 l r' dir cb w] ab [of r' cb "body r'"]
      by simp
  next
    assume h: "net u = Reply r \<and> statusCode r = 200 \<and> contentLength r = None"
    then show "progress_of (trace (snd (downloadFromUrl net u p cb w))) = progress_of (trace w)"
      using downloadFromUrl_200 [of net u r p cb w] ab [of r cb "body r"] by simp
  qed
qed


lemma sample_replies:
  "statusCode reply_1000 = 200" "statusCode reply_no_length = 200"
  "contentLength reply_no_length = None"
  "statusCode (redirect_to l) = 302" "location (redirect_to l) = Some l"
  "length (concat (body reply_1000)) = 1000"
  by (simp_all add: reply_1000_def reply_no_length_def redirect_to_def)

lemma sample_nets:
  "serve r u = Reply r"
  "serve_redirected r ''https://huggingface.co/ggerganov/whisper.cpp/resolve/main/ggml-tiny.bin'' = Reply (redirect_to ''https://cdn.example/ggml-tiny.bin'')"
  "serve_redirected r ''https://cdn.example/ggml-tiny.bin'' = Reply r"
  by (simp_all add: serve_def serve_redirected_def)

text \<open>
  The amended claim C6 on the reply of 1000 bytes in two chunks of 500, fetched directly,
  through a redirect and by \<^verbatim>\<open>downloadFromUrl\<close>: the callback gets 50, then 100;
  and on the same body without the header: no call.
\<close>

theorem download_reports_double_rounded_percent_witness:
  "progress_of (trace (snd (downloadModel (serve reply_1000) ''/models'' ''tiny'' True empty_world)))
     = [50, 100]
   \<and> progress_of (trace (snd (downloadModel (serve_redirected reply_1000) ''/models'' ''tiny'' True
        empty_world))) = [50, 100]
   \<and> progress_of (trace (snd (downloadFromUrl (serve reply_1000) ''https://huggingface.co/ggerganov/whisper.cpp/resolve/main/ggml-tiny.bin'' ''/models/ggml-tiny.bin.tmp''
        True empty_world))) = [50, 100]
   \<and> progress_of (trace (snd (downloadModel (serve reply_no_length) ''/models'' ''tiny'' True
        empty_world))) = []
   \<and> progress_of (trace (snd (downloadModel (serve_redirected reply_no_length) ''/models'' ''tiny''
        True empty_world))) = []
   \<and> progress_of (trace (snd (downloadFromUrl (serve reply_no_length) ''https://huggingface.co/ggerganov/whisper.cpp/resolve/main/ggml-tiny.bin''
        ''/models/ggml-tiny.bin.tmp'' True empty_world))) = []"
proof -
  have e: "progress_of (trace empty_world) = []"
    by (simp add: empty_world_def)
  have m: "map (\<lambda>k. round (fl (fl (of_nat (length (concat (take k (body reply_1000)))) / of_int 1000) * 100)))
             [1..<Suc (length (body reply_1000))] = [50, 100]"
    using on_data_closed_form [of 1000 0 "body reply_1000"] on_data_samples(1)
    by (simp add: percent_def)
  have u: "''https://huggingface.co/ggerganov/whisper.cpp/resolve/main/ggml-tiny.bin'' \<noteq> []" "''https://cdn.example/ggml-tiny.bin'' \<noteq> []"
    by simp_all
  note A = download_reports_double_rounded_percent
             [of "''tiny''" "''https://huggingface.co/ggerganov/whisper.cpp/resolve/main/ggml-tiny.bin''"
                "serve reply_1000" reply_1000 1000 "''/models''" empty_world _ _ _ _
                "''/models/ggml-tiny.bin.tmp''"]
  note B = download_reports_double_rounded_percent
             [of "''tiny''" "''https://huggingface.co/ggerganov/whisper.cpp/resolve/main/ggml-tiny.bin''"
                "serve_redirected reply_1000" _ _ "''/models''" empty_world
                "redirect_to ''https://cdn.example/ggml-tiny.bin''" "''https://cdn.example/ggml-tiny.bin''" reply_1000 1000]
  note C = download_reports_double_rounded_percent
             [of "''tiny''" "''https://huggingface.co/ggerganov/whisper.cpp/resolve/main/ggml-tiny.bin''"
                "serve reply_no_length" reply_no_length _ "''/models''" empty_world _ _ _ _
                "''/models/ggml-tiny.bin.tmp''" True]
  note D = download_reports_double_rounded_percent
             [of "''tiny''" "''https://huggingface.co/ggerganov/whisper.cpp/resolve/main/ggml-tiny.bin''"
                "serve_redirected reply_no_length" _ _ "''/models''" empty_world
                "redirect_to ''https://cdn.example/ggml-tiny.bin''" "''https://cdn.example/ggml-tiny.bin''" reply_no_length _ _ True]
  have hA: "js_get MODEL_DOWNLOAD_URLS ''tiny'' = StrVal ''https://huggingface.co/ggerganov/whisper.cpp/resolve/main/ggml-tiny.bin'' \<and> ''https://huggingface.co/ggerganov/whisper.cpp/resolve/main/ggml-tiny.bin'' \<noteq> []
      \<and> serve reply_1000 ''https://huggingface.co/ggerganov/whisper.cpp/resolve/main/ggml-tiny.bin'' = Reply reply_1000 \<and> statusCode reply_1000 = 200
      \<and> totalSize_of reply_1000 = Some 1000 \<and> (0::int) < 1000
      \<and> (1000::int) \<le> 2 ^ 53 \<and> length (concat (body reply_1000)) \<le> 2 ^ 53"
    using js_get_tiny u sample_replies(1,6) totalSize_of_samples(1) sample_nets(1) by simp
  have hA3: "serve reply_1000 ''https://huggingface.co/ggerganov/whisper.cpp/resolve/main/ggml-tiny.bin'' = Reply reply_1000 \<and> statusCode reply_1000 = 200
      \<and> totalSize_of reply_1000 = Some 1000 \<and> (0::int) < 1000
      \<and> (1000::int) \<le> 2 ^ 53 \<and> length (concat (body reply_1000)) \<le> 2 ^ 53"
    using hA by blast
  have hB: "js_get MODEL_DOWNLOAD_URLS ''tiny'' = StrVal ''https://huggingface.co/ggerganov/whisper.cpp/resolve/main/ggml-tiny.bin'' \<and> ''https://huggingface.co/ggerganov/whisper.cpp/resolve/main/ggml-tiny.bin'' \<noteq> []
      \<and> serve_redirected reply_1000 ''https://huggingface.co/ggerganov/whisper.cpp/resolve/main/ggml-tiny.bin'' = Reply (redirect_to ''https://cdn.example/ggml-tiny.bin'')
      \<and> (statusCode (redirect_to ''https://cdn.example/ggml-tiny.bin'') = 301 \<or> statusCode (redirect_to ''https://cdn.example/ggml-tiny.bin'') = 302)
      \<and> location (redirect_to ''https://cdn.example/ggml-tiny.bin'') = Some ''https://cdn.example/ggml-tiny.bin'' \<and> ''https://cdn.example/ggml-tiny.bin'' \<noteq> []
      \<and> serve_redirected reply_1000 ''https://cdn.example/ggml-tiny.bin'' = Reply reply_1000 \<and> statusCode reply_1000 = 200
      \<and> totalSize_of reply_1000 = Some 1000 \<and> (0::int) < 1000
      \<and> (1000::int) \<le> 2 ^ 53 \<and> length (concat (body reply_1000)) \<le> 2 ^ 53"
    using js_get_tiny u sample_replies totalSize_of_samples(1) sample_nets by simp
  have hC: "js_get MODEL_DOWNLOAD_URLS ''tiny'' = StrVal ''https://huggingface.co/ggerganov/whisper.cpp/resolve/main/ggml-tiny.bin'' \<and> ''https://huggingface.co/ggerganov/whisper.cpp/resolve/main/ggml-tiny.bin'' \<noteq> []
      \<and> serve reply_no_length ''https://huggingface.co/ggerganov/whisper.cpp/resolve/main/ggml-tiny.bin'' = Reply reply_no_length \<and> statusCode reply_no_length = 200
      \<and> contentLength reply_no_length = None"
    using js_get_tiny u sample_replies sample_nets(1) by simp
  have hC6: "serve reply_no_length ''https://huggingface.co/ggerganov/whisper.cpp/resolve/main/ggml-tiny.bin'' = Reply reply_no_length \<and> statusCode reply_no_length = 200
      \<and> contentLength reply_no_length = None"
    using hC by blast
  have hD: "js_get MODEL_DOWNLOAD_URLS ''tiny'' = StrVal ''https://huggingface.co/ggerganov/whisper.cpp/resolve/main/ggml-tiny.bin'' \<and> ''https://huggingface.co/ggerganov/whisper.cpp/resolve/main/ggml-tiny.bin'' \<noteq> []
      \<and> serve_redirected reply_no_length ''https://huggingface.co/ggerganov/whisper.cpp/resolve/main/ggml-tiny.bin'' = Reply (redirect_to ''https://cdn.example/ggml-tiny.bin'')
      \<and> (statusCode (redirect_to ''https://cdn.example/ggml-tiny.bin'') = 301 \<or> statusCode (redirect_to ''https://cdn.example/ggml-tiny.bin'') = 302)
      \<and> location (redirect_to ''https://cdn.example/ggml-tiny.bin'') = Some ''https://cdn.example/ggml-tiny.bin'' \<and> ''https://cdn.example/ggml-tiny.bin'' \<noteq> []
      \<and> serve_redirected reply_no_length ''https://cdn.example/ggml-tiny.bin'' = Reply reply_no_length
      \<and> statusCode reply_no_length = 200 \<and> contentLength reply_no_length = None"
    using js_get_tiny u sample_replies sample_nets by simp
  from A [THEN conjunct1, THEN mp, OF hA] have a1: "progress_of (trace (snd (downloadModel (serve reply_1000) ''/models'' ''tiny'' True
        empty_world))) = [50, 100]"
    unfolding m e by simp
  from A [THEN conjunct2, THEN conjunct2, THEN conjunct1, THEN mp, OF hA3] have a3: "progress_of (trace (snd (downloadFromUrl (serve reply_1000) ''https://huggingface.co/ggerganov/whisper.cpp/resolve/main/ggml-tiny.bin''
        ''/models/ggml-tiny.bin.tmp'' True empty_world))) = [50, 100]"
    unfolding m e by simp
  from B [THEN conjunct2, THEN conjunct1, THEN mp, OF hB] have b2: "progress_of (trace (snd (downloadModel (serve_redirected reply_1000) ''/models''
        ''tiny'' True empty_world))) = [50, 100]"
    unfolding m e by simp
  from C [THEN conjunct2, THEN conjunct2, THEN conjunct2, THEN conjunct1, THEN mp, OF hC] have c4: "progress_of (trace (snd (downloadModel (serve reply_no_length) ''/models''
        ''tiny'' True empty_world))) = []"
    unfolding e by simp
  from C [THEN conjunct2, THEN conjunct2, THEN conjunct2, THEN conjunct2, THEN conjunct2, THEN mp, OF hC6] have c6: "progress_of (trace (snd (downloadFromUrl (serve reply_no_length) ''https://huggingface.co/ggerganov/whisper.cpp/resolve/main/ggml-tiny.bin''
        ''/models/ggml-tiny.bin.tmp'' True empty_world))) = []"
    unfolding e by simp
  from D [THEN conjunct2, THEN conjunct2, THEN conjunct2, THEN conjunct2, THEN conjunct1, THEN mp, OF hD] have d5: "progress_of (trace (snd (downloadModel (serve_redirected reply_no_length)
        ''/models'' ''tiny'' True empty_world))) = []"
    unfolding e by simp
  show ?thesis
    using a1 b2 a3 c4 d5 c6 by (intro conjI)
qed

section \<open>Progress values are non-decreasing within a download\<close>

lemma on_data_lower_bound:
  "0 < t \<Longrightarrow> x \<in> set (on_data (Some t) cb d chunks) \<Longrightarrow> percent d t \<le> x"
proof (induction chunks arbitrary: d)
  case Nil
  then show ?case by simp
next
  case (Cons c cs)
  have le: "percent d t \<le> percent (d + length c) t"
    using Cons.prems(1) by (simp add: percent_mono)
  from Cons.prems(2) consider "x = percent (d + length c) t"
    | "x \<in> set (on_data (Some t) cb (d + length c) cs)"
    by (auto simp add: Let_def split: if_splits)
  then show ?case
  proof cases
    case 1
    with le show ?thesis by simp
  next
    case 2
    from Cons.IH [OF Cons.prems(1) 2] le show ?thesis by simp
  qed
qed

lemma on_data_sorted: "sorted (on_data tot cb d chunks)"
proof (cases tot)
  case None
  then show ?thesis by (simp add: on_data_NaN)
next
  case (Some t)
  show ?thesis
  proof (cases "0 < t")
    case False
    with Some show ?thesis by (simp add: on_data_no_total)
  next
    case True
    have "sorted (on_data (Some t) cb d chunks)"
    proof (induction chunks arbitrary: d)
      case Nil
      then show ?case by simp
    next
      case (Cons c cs)
      show ?case
        using Cons [of "d + length c"] on_data_lower_bound [OF True, of _ cb "d + length c" cs]
        by (auto simp add: Let_def)
    qed
    with Some show ?thesis by simp
  qed
qed


lemma downloadFromUrl_progress:
  "\<exists>ps. progress_of (trace (snd (downloadFromUrl net u p cb w))) = progress_of (trace w) @ ps \<and> sorted ps"
  by (cases "net u")
     (auto simp add: downloadFromUrl_def Let_def create_stream_def pipe_body_def on_data_sorted)

lemma downloadModel_progress:
  "\<exists>ps. progress_of (trace (snd (downloadModel net dir name cb w))) = progress_of (trace w) @ ps \<and> sorted ps"
proof (cases "js_get MODEL_DOWNLOAD_URLS name")
  case Undefined
  then show ?thesis by (simp add: downloadModel_def truthy_def)
next
  case Inherited
  then show ?thesis by (simp add: downloadModel_def truthy_def Let_def create_stream_def)
next
  case (StrVal u)
  show ?thesis
  proof (cases "net u")
    case (NetError m)
    with StrVal show ?thesis
      by (auto simp add: downloadModel_def truthy_def Let_def create_stream_def unlink_def)
  next
    case (Reply r)
    show ?thesis
    proof (cases "(statusCode r = 301 \<or> statusCode r = 302) \<and> str_or (location r) [] \<noteq> []")
      case True
      let ?w = "unlink (getModelPath dir name @ ''.tmp'')
                  ((create_stream (getModelPath dir name @ ''.tmp'') w)
                     \<lparr>trace := trace (create_stream (getModelPath dir name @ ''.tmp'') w) @ [HttpsGet (StrVal u)]\<rparr>)"
      obtain res w3 where d: "downloadFromUrl net (str_or (location r) []) (getModelPath dir name @ ''.tmp'') cb ?w = (res, w3)"
        by (cases "downloadFromUrl net (str_or (location r) []) (getModelPath dir name @ ''.tmp'') cb ?w")
      from downloadFromUrl_progress [of net "str_or (location r) []" "getModelPath dir name @ ''.tmp''" cb ?w] d
      obtain ps where ps: "progress_of (trace w3) = progress_of (trace ?w) @ ps" "sorted ps"
        by auto
      have pw: "progress_of (trace ?w) = progress_of (trace w)"
        by (simp add: create_stream_def unlink_def)
      from StrVal Reply True d ps pw show ?thesis
        by (cases res) (auto simp add: downloadModel_def truthy_def Let_def rename_def)
    next
      case False
      with StrVal Reply show ?thesis
        by (auto simp add: downloadModel_def truthy_def Let_def create_stream_def unlink_def
            rename_def pipe_body_def on_data_sorted)
    qed
  qed
qed


section \<open>Recognition progress: the first match of a chunk is forwarded\<close>

lemma digit_nth:
  assumes "k < 10"
  shows "is_digit (''0123456789'' ! k)" "digit_val (''0123456789'' ! k) = k"
    "\<not> is_space (''0123456789'' ! k)"
proof -
  from assms consider "k = 0" | "k = 1" | "k = 2" | "k = 3" | "k = 4" | "k = 5" | "k = 6"
    | "k = 7" | "k = 8" | "k = 9"
    by atomize_elim arith
  then have "is_digit (''0123456789'' ! k) \<and> digit_val (''0123456789'' ! k) = k
      \<and> \<not> is_space (''0123456789'' ! k)"
    by cases (simp_all add: is_digit_def digit_val_def is_space_def)
  then show "is_digit (''0123456789'' ! k)" "digit_val (''0123456789'' ! k) = k"
    "\<not> is_space (''0123456789'' ! k)"
    by simp_all
qed

lemma is_digit_not_space:
  "is_digit c \<Longrightarrow> \<not> is_space c"
  by (auto simp add: is_digit_def is_space_def)

lemma show_nat_digits:
  "show_nat n \<noteq> [] \<and> (\<forall>c\<in>set (show_nat n). is_digit c)"
proof (induction n rule: show_nat.induct)
  case (1 n)
  show ?case
  proof (cases "n < 10")
    case True
    then show ?thesis
      using show_nat.simps [of n] digit_nth(1) [of n] by simp
  next
    case False
    then show ?thesis
      using show_nat.simps [of n] 1 digit_nth(1) [of "n mod 10"] by simp
  qed
qed

lemma digits_val_snoc:
  "digits_val (ds @ [c]) = 10 * digits_val ds + digit_val c"
  by (simp add: digits_val_def)

lemma digits_val_show_nat:
  "digits_val (show_nat n) = n"
proof (induction n rule: show_nat.induct)
  case (1 n)
  show ?case
  proof (cases "n < 10")
    case True
    then show ?thesis
      using show_nat.simps [of n] digit_nth(2) [of n] by (simp add: digits_val_def)
  next
    case False
    then have "digits_val (show_nat n) = 10 * (n div 10) + n mod 10"
      using show_nat.simps [of n] 1 digit_nth(2) [of "n mod 10"] by (simp add: digits_val_snoc)
    then show ?thesis
      by simp
  qed
qed

lemma progress_at_format:
  assumes "\<forall>c\<in>set ws1. is_space c" "\<forall>c\<in>set ws2. is_space c" "ds \<noteq> []" "\<forall>c\<in>set ds. is_digit c"
  shows "progress_at (''progress'' @ ws1 @ ''='' @ ws2 @ ds @ ''%'' @ rest) = Some (digits_val ds)"
proof -
  have a: "dropWhile is_space (ws1 @ CHR ''='' # ws2 @ ds @ CHR ''%'' # rest)
      = CHR ''='' # ws2 @ ds @ CHR ''%'' # rest"
    using assms(1) by (simp add: dropWhile_append2 is_space_def)
  obtain d ds' where ds: "ds = d # ds'"
    using assms(3) by (cases ds) simp_all
  with assms(4) have "\<not> is_space d"
    by (simp add: is_digit_not_space)
  with assms(2) ds have b: "dropWhile is_space (ws2 @ ds @ CHR ''%'' # rest) = ds @ CHR ''%'' # rest"
    by (simp add: dropWhile_append2)
  have p: "\<not> is_digit CHR ''%''"
    by (simp add: is_digit_def)
  from assms(4) p have c: "takeWhile is_digit (ds @ CHR ''%'' # rest) = ds"
    by (simp add: takeWhile_append2)
  from assms(4) p have d: "dropWhile is_digit (ds @ CHR ''%'' # rest) = CHR ''%'' # rest"
    by (simp add: dropWhile_append2)
  show ?thesis
    using assms(3) by (simp add: progress_at_def a b c d)
qed

lemma progressMatch_leftmost:
  "(\<forall>i<length pre. progress_at (drop i (pre @ m)) = None) \<Longrightarrow> progressMatch (pre @ m) = progressMatch m"
proof (induction pre)
  case Nil
  show ?case by simp
next
  case (Cons c pre)
  from Cons.prems have z: "progress_at (c # pre @ m) = None"
    by auto
  have "\<forall>i<length pre. progress_at (drop i (pre @ m)) = None"
  proof (intro allI impI)
    fix i
    assume "i < length pre"
    then have "Suc i < length (c # pre)"
      by simp
    with Cons.prems have "progress_at (drop (Suc i) ((c # pre) @ m)) = None"
      by blast
    then show "progress_at (drop i (pre @ m)) = None"
      by simp
  qed
  with Cons.IH z show ?case
    by simp
qed

lemma progress_at_Nil:
  "progress_at [] = None"
  by (simp add: progress_at_def)

lemma progressMatch_at:
  "progress_at m = Some n \<Longrightarrow> progressMatch m = Some n"
  by (cases m) (simp_all add: progress_at_Nil)

lemma progressMatch_none:
  "(\<forall>i<length out. progress_at (drop i out) = None) \<Longrightarrow> progressMatch out = None"
  using progressMatch_leftmost [of out "[]"] by simp

lemma progressMatch_callback_name:
  "progressMatch (''whisper_print_progress_callback: '' @ m) = progressMatch m"
  by (simp add: progress_at_def is_space_def)

lemma progressMatch_progress_line:
  "progressMatch (progress_line n) = Some n"
proof -
  have "progress_at (''progress'' @ '' '' @ ''='' @ '' '' @ show_nat n @ ''%'' @ [CHR 0x0A])
      = Some (digits_val (show_nat n))"
    using show_nat_digits [of n] by (intro progress_at_format) (simp_all add: is_space_def)
  then have "progressMatch (''progress'' @ '' '' @ ''='' @ '' '' @ show_nat n @ ''%'' @ [CHR 0x0A]) = Some n"
    using progressMatch_at digits_val_show_nat by simp
  then show ?thesis
    using progressMatch_callback_name [of "''progress = '' @ show_nat n @ ''%'' @ [CHR 0x0A]"]
    by (simp add: progress_line_def)
qed

lemma stdout_progress_lines:
  "opt_onProgress opts \<Longrightarrow> stdout_progress opts (map progress_line ns) = map int ns"
  by (induction ns) (simp_all add: stdout_progress_def on_stdout_def progressMatch_progress_line)


text \<open>
  Claim C5, amended. The percent values passed to the progress callback during one
  model download, with or without a redirect, are non-decreasing. The handler of the
  recognition process's standard output forwards, for each data chunk, the number of the
  leftmost \<^verbatim>\<open>progress = N%\<close> in the chunk as it is printed, whatever was forwarded
  before: a chunk whose leftmost match is the run of digits \<^verbatim>\<open>ds\<close> gives one call
  with the value of \<^verbatim>\<open>ds\<close>, a chunk without a match gives no call, and a process that
  prints the progress lines of any numbers \<^verbatim>\<open>ns\<close>, one line per chunk, makes the
  callback receive exactly \<^verbatim>\<open>ns\<close>, in that order. The handler keeps no state from one
  chunk to the next. The numbers are taken up to \<open>2\<^sup>5\<^sup>3\<close>, where \<^verbatim>\<open>parseInt\<close>
  is exact.
\<close>

theorem download_progress_sorted_stdout_first_match:
  "(\<exists>ps. progress_of (trace (snd (downloadModel net dir name cb w))) = progress_of (trace w) @ ps
          \<and> sorted ps)
   \<and> (opt_onProgress opts
        \<and> (\<forall>i<length pre. progress_at (drop i (pre @ ''progress'' @ ws1 @ ''='' @ ws2 @ ds @ ''%'' @ rest)) = None)
        \<and> (\<forall>c\<in>set ws1. is_space c) \<and> (\<forall>c\<in>set ws2. is_space c)
        \<and> ds \<noteq> [] \<and> (\<forall>c\<in>set ds. is_digit c) \<and> digits_val ds \<le> 2 ^ 53 \<longrightarrow>
      on_stdout opts (pre @ ''progress'' @ ws1 @ ''='' @ ws2 @ ds @ ''%'' @ rest) = [int (digits_val ds)])
   \<and> (opt_onProgress opts \<and> (\<forall>i<length out. progress_at (drop i out) = None) \<longrightarrow>
      on_stdout opts out = [])
   \<and> (\<not> opt_onProgress opts \<longrightarrow> stdout_progress opts outs = [])
   \<and> (opt_onProgress opts \<and> (\<forall>n\<in>set ns. n \<le> 2 ^ 53) \<longrightarrow>
      stdout_progress opts (map progress_line ns) = map int ns)
   \<and> stdout_progress opts (outs1 @ outs2) = stdout_progress opts outs1 @ stdout_progress opts outs2
   \<and> stdout_progress opts [out] = on_stdout opts out"
proof (intro conjI impI)
  show "\<exists>ps. progress_of (trace (snd (downloadModel net dir name cb w))) = progress_of (trace w) @ ps
          \<and> sorted ps"
    by (rule downloadModel_progress)
next
  assume h: "opt_onProgress opts
        \<and> (\<forall>i<length pre. progress_at (drop i (pre @ ''progress'' @ ws1 @ ''='' @ ws2 @ ds @ ''%'' @ rest)) = None)
        \<and> (\<forall>c\<in>set ws1. is_space c) \<and> (\<forall>c\<in>set ws2. is_space c)
        \<and> ds \<noteq> [] \<and> (\<forall>c\<in>set ds. is_digit c) \<and> digits_val ds \<le> 2 ^ 53"
  then have a: "progress_at (''progress'' @ ws1 @ ''='' @ ws2 @ ds @ ''%'' @ rest) = Some (digits_val ds)"
    by (intro progress_at_format) simp_all
  from h have "progressMatch (pre @ ''progress'' @ ws1 @ ''='' @ ws2 @ ds @ ''%'' @ rest)
      = progressMatch (''progress'' @ ws1 @ ''='' @ ws2 @ ds @ ''%'' @ rest)"
    by (intro progressMatch_leftmost) simp
  with a have "progressMatch (pre @ ''progress'' @ ws1 @ ''='' @ ws2 @ ds @ ''%'' @ rest)
      = Some (digits_val ds)"
    using progressMatch_at by simp
  with h show "on_stdout opts (pre @ ''progress'' @ ws1 @ ''='' @ ws2 @ ds @ ''%'' @ rest)
      = [int (digits_val ds)]"
    by (simp add: on_stdout_def)
next
  assume "opt_onProgress opts \<and> (\<forall>i<length out. progress_at (drop i out) = None)"
  then show "on_stdout opts out = []"
    using progressMatch_none [of out] by (simp add: on_stdout_def)
next
  assume "\<not> opt_onProgress opts"
  then show "stdout_progress opts outs = []"
    by (induction outs) (simp_all add: stdout_progress_def on_stdout_def)
next
  assume "opt_onProgress opts \<and> (\<forall>n\<in>set ns. n \<le> 2 ^ 53)"
  then show "stdout_progress opts (map progress_line ns) = map int ns"
    by (simp add: stdout_progress_lines)
next
  show "stdout_progress opts (outs1 @ outs2) = stdout_progress opts outs1 @ stdout_progress opts outs2"
    by (simp add: stdout_progress_def)
next
  show "stdout_progress opts [out] = on_stdout opts out"
    by (simp add: stdout_progress_def)
qed

text \<open>
  The amended claim C5 on concrete chunks: a chunk with text before and after the match,
  a chunk without a match, a transcription started without a callback, and the progress
  lines of 50 and 10.
\<close>

theorem download_progress_sorted_stdout_first_match_witness:
  "on_stdout sample_opts ''ok progress = 42% done'' = [42]
   \<and> on_stdout sample_opts ''hi'' = []
   \<and> stdout_progress (sample_opts\<lparr>opt_onProgress := False\<rparr>) [progress_line 50, progress_line 10] = []
   \<and> stdout_progress sample_opts [progress_line 50, progress_line 10] = [50, 10]"
proof -
  note A = download_progress_sorted_stdout_first_match
             [where opts = sample_opts and pre = "''ok ''" and ?ws1.0 = "'' ''" and ?ws2.0 = "'' ''"
                and ds = "''42''" and rest = "'' done''" and out = "''hi''" and ns = "[50, 10]"]
  note B = download_progress_sorted_stdout_first_match
             [where opts = "sample_opts\<lparr>opt_onProgress := False\<rparr>"
                and outs = "[progress_line 50, progress_line 10]"]
  have h2: "opt_onProgress sample_opts
        \<and> (\<forall>i<length ''ok ''. progress_at (drop i (''ok '' @ ''progress'' @ '' '' @ ''='' @ '' '' @ ''42'' @ ''%'' @ '' done'')) = None)
        \<and> (\<forall>c\<in>set '' ''. is_space c) \<and> (\<forall>c\<in>set '' ''. is_space c)
        \<and> ''42'' \<noteq> [] \<and> (\<forall>c\<in>set ''42''. is_digit c) \<and> digits_val ''42'' \<le> 2 ^ 53"
    by (simp add: sample_opts_def All_less_Suc progress_at_def is_space_def is_digit_def
        digits_val_def digit_val_def)
  have h3: "opt_onProgress sample_opts \<and> (\<forall>i<length ''hi''. progress_at (drop i ''hi'') = None)"
    by (simp add: sample_opts_def All_less_Suc progress_at_def)
  have h4: "\<not> opt_onProgress (sample_opts\<lparr>opt_onProgress := False\<rparr>)"
    by simp
  have h5: "opt_onProgress sample_opts \<and> (\<forall>n\<in>set [50, 10]. n \<le> (2::nat) ^ 53)"
    by (simp add: sample_opts_def)
  from A [THEN conjunct2, THEN conjunct1, THEN mp, OF h2]
  have a2: "on_stdout sample_opts ''ok progress = 42% done'' = [42]"
    by (simp add: digits_val_def digit_val_def)
  from A [THEN conjunct2, THEN conjunct2, THEN conjunct1, THEN mp, OF h3]
  have a3: "on_stdout sample_opts ''hi'' = []" .
  from B [THEN conjunct2, THEN conjunct2, THEN conjunct2, THEN conjunct1, THEN mp, OF h4]
  have b4: "stdout_progress (sample_opts\<lparr>opt_onProgress := False\<rparr>) [progress_line 50, progress_line 10] = []" .
  from A [THEN conjunct2, THEN conjunct2, THEN conjunct2, THEN conjunct2, THEN conjunct1, THEN mp, OF h5]
  have a5: "stdout_progress sample_opts [progress_line 50, progress_line 10] = [50, 10]"
    by simp
  show ?thesis
    using a2 a3 b4 a5 by (intro conjI)
qed

text \<open>
  Counterexample to claim C5. The recognition process prints 50 per cent and then 10 per
  cent; the callback of the transcription gets 50, then 10.
\<close>

theorem stdout_progress_decreasing_counterexample:
  "stdout_progress sample_opts
     [''whisper_print_progress_callback: progress =  50%'', ''whisper_print_progress_callback: progress =  10%''] = [50, 10]
   \<and> \<not> sorted (stdout_progress sample_opts
       [''whisper_print_progress_callback: progress =  50%'',
        ''whisper_print_progress_callback: progress =  10%''])"
  by (simp add: stdout_progress_def on_stdout_def sample_opts_def progress_at_def is_space_def is_digit_def digits_val_def digit_val_def)

section \<open>Streaming client: lines and chunks\<close>

text \<open>
  Splitting distributes over the chunks: the complete lines of two pieces are those of
  the first, followed by those of the first's unfinished line put before the second.
\<close>

lemma split_nl_nonempty [simp]: "split_nl s \<noteq> []"
  by (induction s) (simp_all split: list.splits)

lemma split_nl_append:
  "split_nl (a @ b) = butlast (split_nl a) @ split_nl (last (split_nl a) @ b)"
proof (induction a)
  case Nil
  show ?case by simp
next
  case (Cons c cs)
  show ?case
  proof (cases "c = CHR 0x0A")
    case True
    with Cons show ?thesis by simp
  next
    case False
    obtain l ls where sp: "split_nl cs = l # ls"
      by (cases "split_nl cs") simp_all
    show ?thesis
    proof (cases ls)
      case Nil
      with False sp Cons show ?thesis by simp
    next
      case (Cons l' ls')
      with False sp Cons.IH show ?thesis by simp
    qed
  qed
qed

lemma complete_lines_append:
  "complete_lines (a @ b) = complete_lines a @ complete_lines (partial_line a @ b)"
  by (simp add: complete_lines_def partial_line_def split_nl_append [of a b] butlast_append)

lemma partial_line_append:
  "partial_line (a @ b) = partial_line (partial_line a @ b)"
  by (simp add: partial_line_def split_nl_append [of a b])

lemma split_nl_lines: "split_nl s = complete_lines s @ [partial_line s]"
  by (simp add: complete_lines_def partial_line_def)

subsection \<open>The line loop of generateStream\<close>

lemma g_settle_fields [simp]:
  "g_buffer (g_settle r s) = g_buffer s"
  "fullResponse (g_settle r s) = fullResponse s"
  "onChunk_calls (g_settle r s) = onChunk_calls s"
  by (simp_all add: g_settle_def)

lemma g_settle_None: "g_settled s = None \<Longrightarrow> g_settled (g_settle r s) = Some r"
  by (simp add: g_settle_def)

lemma g_settle_Some: "g_settled s = Some r' \<Longrightarrow> g_settle r s = s"
  by (simp add: g_settle_def)

lemma g_settle_buffer: "g_settle r (s\<lparr>g_buffer := b\<rparr>) = (g_settle r s)\<lparr>g_buffer := b\<rparr>"
  by (simp add: g_settle_def)

lemma gen_lines_buffer:
  "gen_lines parse ls (s\<lparr>g_buffer := b\<rparr>) = (gen_lines parse ls s)\<lparr>g_buffer := b\<rparr>"
proof (induction ls arbitrary: s)
  case Nil
  show ?case by simp
next
  case (Cons l ls)
  have upd: "\<And>x. s\<lparr>g_buffer := b, fullResponse := fullResponse s @ x, onChunk_calls := onChunk_calls s @ [x]\<rparr>
        = (s\<lparr>fullResponse := fullResponse s @ x, onChunk_calls := onChunk_calls s @ [x]\<rparr>)\<lparr>g_buffer := b\<rparr>"
    by simp
  show ?case
    by (simp add: Let_def Cons.IH g_settle_buffer upd split: option.splits del: gen_state.update_convs)
qed

lemma gen_lines_settled_keep:
  "g_settled s = Some r \<Longrightarrow> g_settled (gen_lines parse ls s) = Some r"
  by (induction ls arbitrary: s) (simp_all add: Let_def g_settle_def split: option.splits)

lemma gen_lines_calls_prefix:
  "prefix (onChunk_calls s) (onChunk_calls (gen_lines parse ls s))"
proof (induction ls arbitrary: s)
  case Nil
  show ?case by simp
next
  case (Cons l ls)
  let ?s1 = "\<lambda>d. s\<lparr>fullResponse := fullResponse s @ response d,
                     onChunk_calls := onChunk_calls s @ [response d]\<rparr>"
  have step: "\<And>d. prefix (onChunk_calls s) (onChunk_calls (gen_lines parse ls (?s1 d)))"
  proof -
    fix d
    have "prefix (onChunk_calls s) (onChunk_calls (?s1 d))" by simp
    also have "prefix (onChunk_calls (?s1 d)) (onChunk_calls (gen_lines parse ls (?s1 d)))"
      by (rule Cons.IH)
    finally show "prefix (onChunk_calls s) (onChunk_calls (gen_lines parse ls (?s1 d)))" .
  qed
  show ?case
    using step Cons.IH [of s]
    by (auto simp add: Let_def split: option.splits)
qed

lemma gen_responses_Cons:
  "gen_responses parse (l # ls) = gen_response parse l @ gen_responses parse ls"
  by (simp add: gen_responses_def)

lemma gen_responses_append:
  "gen_responses parse (xs @ ys) = gen_responses parse xs @ gen_responses parse ys"
  by (simp add: gen_responses_def)

lemma gen_lines_nonterminal:
  "\<forall>l\<in>set ls. \<not> gen_terminal parse l \<Longrightarrow>
     gen_lines parse ls s
       = s\<lparr>fullResponse := fullResponse s @ concat (gen_responses parse ls),
            onChunk_calls := onChunk_calls s @ gen_responses parse ls\<rparr>"
proof (induction ls arbitrary: s)
  case Nil
  show ?case by (simp add: gen_responses_def)
next
  case (Cons l ls)
  from Cons.prems have nt: "\<not> gen_terminal parse l" and rest: "\<forall>l\<in>set ls. \<not> gen_terminal parse l"
    by simp_all
  show ?case
  proof (cases "trim l \<noteq> [] \<and> parse l \<noteq> None")
    case False
    then show ?thesis
      using Cons.IH [OF rest, of s]
      by (auto simp add: gen_responses_Cons gen_response_def)
  next
    case True
    then obtain d where d: "parse l = Some d" and tl: "trim l \<noteq> []" by auto
    with nt have nd: "\<not> is_done d" and ne: "error d = None"
      by (simp_all add: gen_terminal_def)
    show ?thesis
      using d tl nd ne Cons.IH [OF rest]
      by (simp add: Let_def gen_responses_Cons gen_response_def)
  qed
qed

lemma gen_lines_terminal:
  assumes "gen_terminal parse t" and "parse t = Some d"
  shows "gen_lines parse (t # rest) s
           = g_settle (gen_verdict d (fullResponse s @ concat (gen_response parse t)))
               (s\<lparr>fullResponse := fullResponse s @ concat (gen_response parse t),
                  onChunk_calls := onChunk_calls s @ gen_response parse t\<rparr>)"
  using assms
  by (auto simp add: gen_terminal_def gen_response_def gen_verdict_def Let_def split: option.splits)

lemma gen_lines_append:
  "g_settled s = None \<Longrightarrow>
     gen_lines parse (xs @ ys) s
       = (if g_settled (gen_lines parse xs s) = None
          then gen_lines parse ys (gen_lines parse xs s)
          else gen_lines parse xs s)"
proof (induction xs arbitrary: s)
  case Nil
  then show ?case by simp
next
  case (Cons l ls)
  show ?case
  proof (cases "gen_terminal parse l")
    case True
    then obtain d where d: "parse l = Some d"
      by (auto simp add: gen_terminal_def split: option.splits)
    let ?X = "g_settle (gen_verdict d (fullResponse s @ concat (gen_response parse l)))
               (s\<lparr>fullResponse := fullResponse s @ concat (gen_response parse l),
                  onChunk_calls := onChunk_calls s @ gen_response parse l\<rparr>)"
    have a: "gen_lines parse ((l # ls) @ ys) s = ?X"
      by (simp only: append_Cons gen_lines_terminal [OF True d])
    have b: "gen_lines parse (l # ls) s = ?X"
      by (simp only: gen_lines_terminal [OF True d])
    have c: "g_settled ?X \<noteq> None"
      using Cons.prems by (simp add: g_settle_def)
    show ?thesis
      using c by (simp only: a b) simp
  next
    case False
    have one: "\<And>zs. gen_lines parse (l # zs) s = gen_lines parse zs (gen_lines parse [l] s)"
    proof -
      fix zs
      show "gen_lines parse (l # zs) s = gen_lines parse zs (gen_lines parse [l] s)"
        using False
        by (auto simp add: gen_terminal_def Let_def split: option.splits)
    qed
    have un: "g_settled (gen_lines parse [l] s) = None"
      using False Cons.prems gen_lines_nonterminal [of "[l]" parse s] by simp
    show ?thesis
      using one [of "ls @ ys"] one [of ls] Cons.IH [OF un] by simp
  qed
qed

text \<open>
  The state after the data events against the loop run once over all complete lines of
  the whole stream: the buffers agree with the unfinished line, the promises agree, the
  states agree while the promise is unsettled, and the calls of the whole-stream run
  are a prefix of the calls made.
\<close>

lemma gen_on_data_lines:
  "gen_on_data parse c s
     = (gen_lines parse (complete_lines (g_buffer s @ c)) s)\<lparr>g_buffer := partial_line (g_buffer s @ c)\<rparr>"
  by (simp add: gen_on_data_def Let_def complete_lines_def partial_line_def gen_lines_buffer)

lemma gen_chunks_invariant:
  "g_buffer (foldl (\<lambda>s c. gen_on_data parse c s) gen_init cs) = partial_line (concat cs)
   \<and> g_settled (foldl (\<lambda>s c. gen_on_data parse c s) gen_init cs)
       = g_settled (gen_lines parse (complete_lines (concat cs)) gen_init)
   \<and> (g_settled (gen_lines parse (complete_lines (concat cs)) gen_init) = None \<longrightarrow>
        foldl (\<lambda>s c. gen_on_data parse c s) gen_init cs
          = (gen_lines parse (complete_lines (concat cs)) gen_init)\<lparr>g_buffer := partial_line (concat cs)\<rparr>)
   \<and> prefix (onChunk_calls (gen_lines parse (complete_lines (concat cs)) gen_init))
        (onChunk_calls (foldl (\<lambda>s c. gen_on_data parse c s) gen_init cs))"
proof (induction cs rule: rev_induct)
  case Nil
  show ?case
    by (simp add: complete_lines_def partial_line_def gen_init_def)
next
  case (snoc x cs)
  let ?S = "foldl (\<lambda>s c. gen_on_data parse c s) gen_init cs"
  let ?R = "gen_lines parse (complete_lines (concat cs)) gen_init"
  let ?new = "complete_lines (partial_line (concat cs) @ x)"
  let ?pl = "partial_line (concat (cs @ [x]))"
  from snoc.IH have buf: "g_buffer ?S = partial_line (concat cs)"
    and st: "g_settled ?S = g_settled ?R"
    and eq: "g_settled ?R = None \<Longrightarrow> ?S = ?R\<lparr>g_buffer := partial_line (concat cs)\<rparr>"
    and pre: "prefix (onChunk_calls ?R) (onChunk_calls ?S)"
    by simp_all
  have pl: "?pl = partial_line (partial_line (concat cs) @ x)"
    by (simp add: partial_line_append [of "concat cs" x])
  have "foldl (\<lambda>s c. gen_on_data parse c s) gen_init (cs @ [x]) = gen_on_data parse x ?S"
    by (simp only: foldl_append foldl.simps)
  also have "\<dots> = (gen_lines parse (complete_lines (g_buffer ?S @ x)) ?S)
                      \<lparr>g_buffer := partial_line (g_buffer ?S @ x)\<rparr>"
    by (rule gen_on_data_lines)
  also have "\<dots> = (gen_lines parse ?new ?S)\<lparr>g_buffer := ?pl\<rparr>"
    by (simp only: buf pl)
  finally have S': "foldl (\<lambda>s c. gen_on_data parse c s) gen_init (cs @ [x])
              = (gen_lines parse ?new ?S)\<lparr>g_buffer := ?pl\<rparr>" .
  have R': "gen_lines parse (complete_lines (concat (cs @ [x]))) gen_init
              = (if g_settled ?R = None then gen_lines parse ?new ?R else ?R)"
    by (simp add: complete_lines_append [of "concat cs" x] gen_lines_append gen_init_def)
  show ?case
  proof (cases "g_settled ?R")
    case None
    from eq [OF None] have "gen_lines parse ?new ?S
        = (gen_lines parse ?new ?R)\<lparr>g_buffer := partial_line (concat cs)\<rparr>"
      by (simp add: gen_lines_buffer)
    then have "foldl (\<lambda>s c. gen_on_data parse c s) gen_init (cs @ [x])
        = (gen_lines parse ?new ?R)\<lparr>g_buffer := ?pl\<rparr>"
      by (simp only: S') simp
    with None R' show ?thesis by simp
  next
    case (Some r)
    with st have "g_settled ?S = Some r" by simp
    then have k: "g_settled (gen_lines parse ?new ?S) = Some r"
      by (rule gen_lines_settled_keep)
    have "prefix (onChunk_calls ?R) (onChunk_calls (gen_lines parse ?new ?S))"
      using pre gen_lines_calls_prefix [of ?S parse ?new] by (rule prefix_order.trans)
    with Some R' S' k show ?thesis by simp
  qed
qed

lemma gen_lines_first_terminal:
  assumes "\<forall>l\<in>set pre. \<not> gen_terminal parse l" and "gen_terminal parse t" and "parse t = Some d"
  shows "gen_lines parse (pre @ t # post) gen_init
           = \<lparr>g_buffer = [], fullResponse = concat (gen_responses parse (pre @ [t])),
              onChunk_calls = gen_responses parse (pre @ [t]),
              g_settled = Some (gen_verdict d (concat (gen_responses parse (pre @ [t]))))\<rparr>"
proof -
  have p: "gen_lines parse pre gen_init
             = gen_init\<lparr>fullResponse := concat (gen_responses parse pre),
                        onChunk_calls := gen_responses parse pre\<rparr>"
    using gen_lines_nonterminal [OF assms(1), of gen_init] by (simp add: gen_init_def)
  have "gen_lines parse (pre @ t # post) gen_init
          = gen_lines parse (t # post) (gen_lines parse pre gen_init)"
    using gen_lines_append [of gen_init parse pre "t # post"] p by (simp add: gen_init_def)
  also have "\<dots> = g_settle (gen_verdict d (concat (gen_responses parse pre) @ concat (gen_response parse t)))
                     (gen_init\<lparr>fullResponse := concat (gen_responses parse pre) @ concat (gen_response parse t),
                        onChunk_calls := gen_responses parse pre @ gen_response parse t\<rparr>)"
    by (simp only: p gen_lines_terminal [OF assms(2,3)]) simp
  finally show ?thesis
    by (simp add: g_settle_def gen_init_def gen_responses_append gen_responses_def)
qed

lemma generateStream_no_terminal:
  assumes "\<forall>l\<in>set (complete_lines (concat chunks)). \<not> gen_terminal parse l"
  shows "generateStream parse chunks
           = \<lparr>g_buffer = partial_line (concat chunks),
              fullResponse = concat (gen_responses parse (complete_lines (concat chunks))),
              onChunk_calls = gen_responses parse (complete_lines (concat chunks)),
              g_settled = Some (Resolved (concat (gen_responses parse (complete_lines (concat chunks)))))\<rparr>"
proof -
  have r: "gen_lines parse (complete_lines (concat chunks)) gen_init
             = gen_init\<lparr>fullResponse := concat (gen_responses parse (complete_lines (concat chunks))),
                        onChunk_calls := gen_responses parse (complete_lines (concat chunks))\<rparr>"
    using gen_lines_nonterminal [OF assms, of gen_init] by (simp add: gen_init_def)
  then have "g_settled (gen_lines parse (complete_lines (concat chunks)) gen_init) = None"
    by (simp add: gen_init_def)
  with gen_chunks_invariant [of parse chunks]
  have "foldl (\<lambda>s c. gen_on_data parse c s) gen_init chunks
          = (gen_lines parse (complete_lines (concat chunks)) gen_init)\<lparr>g_buffer := partial_line (concat chunks)\<rparr>"
    by simp
  then have fold: "foldl (\<lambda>s c. gen_on_data parse c s) gen_init chunks
          = (gen_init\<lparr>fullResponse := concat (gen_responses parse (complete_lines (concat chunks))),
                        onChunk_calls := gen_responses parse (complete_lines (concat chunks))\<rparr>)
              \<lparr>g_buffer := partial_line (concat chunks)\<rparr>"
    by (simp only: r)
  show ?thesis
    unfolding generateStream_def fold
    by (simp add: gen_on_end_def g_settle_def gen_init_def)
qed

lemma generateStream_first_terminal:
  assumes "complete_lines (concat chunks) = pre @ t # post"
    and "\<forall>l\<in>set pre. \<not> gen_terminal parse l" and "gen_terminal parse t" and "parse t = Some d"
  shows "g_settled (generateStream parse chunks)
           = Some (gen_verdict d (concat (gen_responses parse (pre @ [t]))))"
    and "prefix (gen_responses parse (pre @ [t])) (onChunk_calls (generateStream parse chunks))"
proof -
  have r: "gen_lines parse (complete_lines (concat chunks)) gen_init
           = \<lparr>g_buffer = [], fullResponse = concat (gen_responses parse (pre @ [t])),
              onChunk_calls = gen_responses parse (pre @ [t]),
              g_settled = Some (gen_verdict d (concat (gen_responses parse (pre @ [t]))))\<rparr>"
    by (simp only: assms(1) gen_lines_first_terminal [OF assms(2,3,4)])
  from gen_chunks_invariant [of parse chunks] r
  have s: "g_settled (foldl (\<lambda>s c. gen_on_data parse c s) gen_init chunks)
             = Some (gen_verdict d (concat (gen_responses parse (pre @ [t]))))"
    and p: "prefix (gen_responses parse (pre @ [t]))
              (onChunk_calls (foldl (\<lambda>s c. gen_on_data parse c s) gen_init chunks))"
    by simp_all
  from s show "g_settled (generateStream parse chunks)
           = Some (gen_verdict d (concat (gen_responses parse (pre @ [t]))))"
    by (simp add: generateStream_def gen_on_end_def g_settle_def)
  from p show "prefix (gen_responses parse (pre @ [t])) (onChunk_calls (generateStream parse chunks))"
    by (simp add: generateStream_def gen_on_end_def)
qed

subsection \<open>The line loop of pullModel\<close>

lemma p_settle_fields [simp]:
  "p_buffer (p_settle r s) = p_buffer s"
  "onProgress_calls (p_settle r s) = onProgress_calls s"
  by (simp_all add: p_settle_def)

lemma p_settle_buffer: "p_settle r (s\<lparr>p_buffer := b\<rparr>) = (p_settle r s)\<lparr>p_buffer := b\<rparr>"
  by (simp add: p_settle_def)

lemma pull_lines_buffer:
  "pull_lines parse cb ls (s\<lparr>p_buffer := b\<rparr>) = (pull_lines parse cb ls s)\<lparr>p_buffer := b\<rparr>"
proof (induction ls arbitrary: s)
  case Nil
  show ?case by simp
next
  case (Cons l ls)
  have upd: "\<And>x. s\<lparr>p_buffer := b, onProgress_calls := onProgress_calls s @ [x]\<rparr>
        = (s\<lparr>onProgress_calls := onProgress_calls s @ [x]\<rparr>)\<lparr>p_buffer := b\<rparr>"
    by simp
  show ?case
    using Cons.IH
    by (cases cb)
       (simp_all add: Let_def p_settle_buffer upd split: option.splits del: pull_state.update_convs)
qed

lemma pull_lines_settled_keep:
  "p_settled s = Some r \<Longrightarrow> p_settled (pull_lines parse cb ls s) = Some r"
  by (induction ls arbitrary: s) (simp_all add: Let_def p_settle_def split: option.splits)

lemma pull_lines_calls_prefix:
  "prefix (onProgress_calls s) (onProgress_calls (pull_lines parse cb ls s))"
proof (induction ls arbitrary: s)
  case Nil
  show ?case by simp
next
  case (Cons l ls)
  let ?s1 = "\<lambda>x. s\<lparr>onProgress_calls := onProgress_calls s @ [x]\<rparr>"
  have step: "\<And>x. prefix (onProgress_calls s) (onProgress_calls (pull_lines parse cb ls (?s1 x)))"
  proof -
    fix x
    have "prefix (onProgress_calls s) (onProgress_calls (?s1 x))" by simp
    also have "prefix (onProgress_calls (?s1 x)) (onProgress_calls (pull_lines parse cb ls (?s1 x)))"
      by (rule Cons.IH)
    finally show "prefix (onProgress_calls s) (onProgress_calls (pull_lines parse cb ls (?s1 x)))" .
  qed
  show ?case
    using step Cons.IH [of s]
    by (auto simp add: Let_def split: option.splits)
qed

lemma pull_reports_Cons:
  "pull_reports parse cb (l # ls) = pull_reports parse cb [l] @ pull_reports parse cb ls"
  by (simp add: pull_reports_def)

lemma pull_reports_append:
  "pull_reports parse cb (xs @ ys) = pull_reports parse cb xs @ pull_reports parse cb ys"
  by (simp add: pull_reports_def)

lemma pull_lines_nonterminal:
  "\<forall>l\<in>set ls. \<not> pull_terminal parse l \<Longrightarrow>
     pull_lines parse cb ls s
       = s\<lparr>onProgress_calls := onProgress_calls s @ pull_reports parse cb ls\<rparr>"
proof (induction ls arbitrary: s)
  case Nil
  show ?case by (simp add: pull_reports_def)
next
  case (Cons l ls)
  from Cons.prems have nt: "\<not> pull_terminal parse l" and rest: "\<forall>l\<in>set ls. \<not> pull_terminal parse l"
    by simp_all
  show ?case
  proof (cases "trim l \<noteq> [] \<and> parse l \<noteq> None")
    case False
    then show ?thesis
      using Cons.IH [OF rest, of s]
      by (auto simp add: pull_reports_Cons [of parse cb l ls] pull_reports_def pull_report_def)
  next
    case True
    then obtain d where d: "parse l = Some d" and tl: "trim l \<noteq> []" by auto
    with nt have nd: "status d \<noteq> ''success''" and ne: "pull_error d = []"
      by (simp_all add: pull_terminal_def)
    show ?thesis
      using d tl nd ne Cons.IH [OF rest]
      by (simp add: Let_def pull_reports_Cons [of parse cb l ls] pull_reports_def pull_report_def)
  qed
qed

lemma pull_lines_terminal:
  assumes "pull_terminal parse t" and "parse t = Some d"
  shows "pull_lines parse cb (t # rest) s
           = p_settle (pull_verdict d)
               (s\<lparr>onProgress_calls := onProgress_calls s @ pull_reports parse cb [t]\<rparr>)"
  using assms
  by (auto simp add: pull_terminal_def pull_reports_def pull_report_def pull_verdict_def Let_def
      split: option.splits)

lemma pull_lines_append:
  "p_settled s = None \<Longrightarrow>
     pull_lines parse cb (xs @ ys) s
       = (if p_settled (pull_lines parse cb xs s) = None
          then pull_lines parse cb ys (pull_lines parse cb xs s)
          else pull_lines parse cb xs s)"
proof (induction xs arbitrary: s)
  case Nil
  then show ?case by simp
next
  case (Cons l ls)
  show ?case
  proof (cases "pull_terminal parse l")
    case True
    then obtain d where d: "parse l = Some d"
      by (auto simp add: pull_terminal_def split: option.splits)
    let ?X = "p_settle (pull_verdict d)
               (s\<lparr>onProgress_calls := onProgress_calls s @ pull_reports parse cb [l]\<rparr>)"
    have a: "pull_lines parse cb ((l # ls) @ ys) s = ?X"
      by (simp only: append_Cons pull_lines_terminal [OF True d])
    have b: "pull_lines parse cb (l # ls) s = ?X"
      by (simp only: pull_lines_terminal [OF True d])
    have c: "p_settled ?X \<noteq> None"
      using Cons.prems by (simp add: p_settle_def)
    show ?thesis
      using c by (simp only: a b) simp
  next
    case False
    have one: "\<And>zs. pull_lines parse cb (l # zs) s = pull_lines parse cb zs (pull_lines parse cb [l] s)"
    proof -
      fix zs
      show "pull_lines parse cb (l # zs) s = pull_lines parse cb zs (pull_lines parse cb [l] s)"
        using False
        by (auto simp add: pull_terminal_def Let_def split: option.splits)
    qed
    have un: "p_settled (pull_lines parse cb [l] s) = None"
      using False Cons.prems pull_lines_nonterminal [of "[l]" parse cb s] by simp
    show ?thesis
      using one [of "ls @ ys"] one [of ls] Cons.IH [OF un] by simp
  qed
qed

lemma pull_on_data_lines:
  "pull_on_data parse cb c s
     = (pull_lines parse cb (complete_lines (p_buffer s @ c)) s)\<lparr>p_buffer := partial_line (p_buffer s @ c)\<rparr>"
  by (simp add: pull_on_data_def Let_def complete_lines_def partial_line_def pull_lines_buffer)

lemma pull_chunks_invariant:
  "p_buffer (foldl (\<lambda>s c. pull_on_data parse cb c s) pull_init cs) = partial_line (concat cs)
   \<and> p_settled (foldl (\<lambda>s c. pull_on_data parse cb c s) pull_init cs)
       = p_settled (pull_lines parse cb (complete_lines (concat cs)) pull_init)
   \<and> (p_settled (pull_lines parse cb (complete_lines (concat cs)) pull_init) = None \<longrightarrow>
        foldl (\<lambda>s c. pull_on_data parse cb c s) pull_init cs
          = (pull_lines parse cb (complete_lines (concat cs)) pull_init)\<lparr>p_buffer := partial_line (concat cs)\<rparr>)
   \<and> prefix (onProgress_calls (pull_lines parse cb (complete_lines (concat cs)) pull_init))
        (onProgress_calls (foldl (\<lambda>s c. pull_on_data parse cb c s) pull_init cs))"
proof (induction cs rule: rev_induct)
  case Nil
  show ?case
    by (simp add: complete_lines_def partial_line_def pull_init_def)
next
  case (snoc x cs)
  let ?S = "foldl (\<lambda>s c. pull_on_data parse cb c s) pull_init cs"
  let ?R = "pull_lines parse cb (complete_lines (concat cs)) pull_init"
  let ?new = "complete_lines (partial_line (concat cs) @ x)"
  let ?pl = "partial_line (concat (cs @ [x]))"
  from snoc.IH have buf: "p_buffer ?S = partial_line (concat cs)"
    and st: "p_settled ?S = p_settled ?R"
    and eq: "p_settled ?R = None \<Longrightarrow> ?S = ?R\<lparr>p_buffer := partial_line (concat cs)\<rparr>"
    and pre: "prefix (onProgress_calls ?R) (onProgress_calls ?S)"
    by simp_all
  have pl: "?pl = partial_line (partial_line (concat cs) @ x)"
    by (simp add: partial_line_append [of "concat cs" x])
  have "foldl (\<lambda>s c. pull_on_data parse cb c s) pull_init (cs @ [x]) = pull_on_data parse cb x ?S"
    by (simp only: foldl_append foldl.simps)
  also have "\<dots> = (pull_lines parse cb (complete_lines (p_buffer ?S @ x)) ?S)
                      \<lparr>p_buffer := partial_line (p_buffer ?S @ x)\<rparr>"
    by (rule pull_on_data_lines)
  also have "\<dots> = (pull_lines parse cb ?new ?S)\<lparr>p_buffer := ?pl\<rparr>"
    by (simp only: buf pl)
  finally have S': "foldl (\<lambda>s c. pull_on_data parse cb c s) pull_init (cs @ [x])
              = (pull_lines parse cb ?new ?S)\<lparr>p_buffer := ?pl\<rparr>" .
  have R': "pull_lines parse cb (complete_lines (concat (cs @ [x]))) pull_init
              = (if p_settled ?R = None then pull_lines parse cb ?new ?R else ?R)"
    by (simp add: complete_lines_append [of "concat cs" x] pull_lines_append pull_init_def)
  show ?case
  proof (cases "p_settled ?R")
    case None
    from eq [OF None] have "pull_lines parse cb ?new ?S
        = (pull_lines parse cb ?new ?R)\<lparr>p_buffer := partial_line (concat cs)\<rparr>"
      by (simp add: pull_lines_buffer)
    then have "foldl (\<lambda>s c. pull_on_data parse cb c s) pull_init (cs @ [x])
        = (pull_lines parse cb ?new ?R)\<lparr>p_buffer := ?pl\<rparr>"
      by (simp only: S') simp
    with None R' show ?thesis by simp
  next
    case (Some r)
    with st have "p_settled ?S = Some r" by simp
    then have k: "p_settled (pull_lines parse cb ?new ?S) = Some r"
      by (rule pull_lines_settled_keep)
    have "prefix (onProgress_calls ?R) (onProgress_calls (pull_lines parse cb ?new ?S))"
      using pre pull_lines_calls_prefix [of ?S parse cb ?new] by (rule prefix_order.trans)
    with Some R' S' k show ?thesis by simp
  qed
qed

lemma pull_lines_first_terminal:
  assumes "\<forall>l\<in>set pre. \<not> pull_terminal parse l" and "pull_terminal parse t" and "parse t = Some d"
  shows "pull_lines parse cb (pre @ t # post) pull_init
           = \<lparr>p_buffer = [], onProgress_calls = pull_reports parse cb (pre @ [t]),
              p_settled = Some (pull_verdict d)\<rparr>"
proof -
  have p: "pull_lines parse cb pre pull_init
             = pull_init\<lparr>onProgress_calls := pull_reports parse cb pre\<rparr>"
    using pull_lines_nonterminal [OF assms(1), of cb pull_init] by (simp add: pull_init_def)
  have "pull_lines parse cb (pre @ t # post) pull_init
          = pull_lines parse cb (t # post) (pull_lines parse cb pre pull_init)"
    using pull_lines_append [of pull_init parse cb pre "t # post"] p by (simp add: pull_init_def)
  also have "\<dots> = p_settle (pull_verdict d)
                     (pull_init\<lparr>onProgress_calls := pull_reports parse cb pre @ pull_reports parse cb [t]\<rparr>)"
    by (simp only: p pull_lines_terminal [OF assms(2,3)]) simp
  finally show ?thesis
    by (simp add: p_settle_def pull_init_def pull_reports_append)
qed

lemma pull_data_no_terminal:
  assumes "\<forall>l\<in>set (complete_lines (concat chunks)). \<not> pull_terminal parse l"
  shows "foldl (\<lambda>s c. pull_on_data parse cb c s) pull_init chunks
           = \<lparr>p_buffer = partial_line (concat chunks),
              onProgress_calls = pull_reports parse cb (complete_lines (concat chunks)),
              p_settled = None\<rparr>"
proof -
  have r: "pull_lines parse cb (complete_lines (concat chunks)) pull_init
             = pull_init\<lparr>onProgress_calls := pull_reports parse cb (complete_lines (concat chunks))\<rparr>"
    using pull_lines_nonterminal [OF assms, of cb pull_init] by (simp add: pull_init_def)
  then have "p_settled (pull_lines parse cb (complete_lines (concat chunks)) pull_init) = None"
    by (simp add: pull_init_def)
  with pull_chunks_invariant [of parse cb chunks]
  have "foldl (\<lambda>s c. pull_on_data parse cb c s) pull_init chunks
          = (pull_lines parse cb (complete_lines (concat chunks)) pull_init)\<lparr>p_buffer := partial_line (concat chunks)\<rparr>"
    by simp
  then have "foldl (\<lambda>s c. pull_on_data parse cb c s) pull_init chunks
          = (pull_init\<lparr>onProgress_calls := pull_reports parse cb (complete_lines (concat chunks))\<rparr>)
              \<lparr>p_buffer := partial_line (concat chunks)\<rparr>"
    by (simp only: r)
  then show ?thesis
    by (simp add: pull_init_def)
qed

lemma pullModel_first_terminal:
  assumes "complete_lines (concat chunks) = pre @ t # post"
    and "\<forall>l\<in>set pre. \<not> pull_terminal parse l" and "pull_terminal parse t" and "parse t = Some d"
  shows "p_settled (pullModel parse cb chunks) = Some (pull_verdict d)"
    and "prefix (pull_reports parse cb (pre @ [t])) (onProgress_calls (pullModel parse cb chunks))"
proof -
  have r: "pull_lines parse cb (complete_lines (concat chunks)) pull_init
           = \<lparr>p_buffer = [], onProgress_calls = pull_reports parse cb (pre @ [t]),
              p_settled = Some (pull_verdict d)\<rparr>"
    by (simp only: assms(1) pull_lines_first_terminal [OF assms(2,3,4)])
  from pull_chunks_invariant [of parse cb chunks] r
  have s: "p_settled (foldl (\<lambda>s c. pull_on_data parse cb c s) pull_init chunks)
             = Some (pull_verdict d)"
    and p: "prefix (pull_reports parse cb (pre @ [t]))
              (onProgress_calls (foldl (\<lambda>s c. pull_on_data parse cb c s) pull_init chunks))"
    by simp_all
  from s show "p_settled (pullModel parse cb chunks) = Some (pull_verdict d)"
    by (simp add: pullModel_def pull_on_end_def p_settle_def split: option.splits)
  from p show "prefix (pull_reports parse cb (pre @ [t])) (onProgress_calls (pullModel parse cb chunks))"
    by (simp add: pullModel_def pull_on_end_def split: option.splits)
qed

subsection \<open>The calls made, data event by data event\<close>

lemma gen_lines_g_buffer:
  "g_buffer (gen_lines parse ls s) = g_buffer s"
  by (induction ls arbitrary: s) (simp_all add: Let_def split: option.splits)

lemma gen_lines_until:
  "onChunk_calls (gen_lines parse ls s)
     = onChunk_calls s @ gen_responses parse (until_first (gen_terminal parse) ls)"
proof (induction ls arbitrary: s)
  case Nil
  show ?case by (simp add: gen_responses_def)
next
  case (Cons l ls)
  show ?case
    by (simp add: Let_def Cons.IH gen_responses_def gen_response_def gen_terminal_def
        split: option.splits)
qed

lemma gen_events_until:
  "onChunk_calls (foldl (\<lambda>s c. gen_on_data parse c s) s chunks)
     = onChunk_calls s
       @ gen_responses parse (concat (map (until_first (gen_terminal parse)) (event_lines (g_buffer s) chunks)))"
proof (induction chunks arbitrary: s)
  case Nil
  show ?case by (simp add: gen_responses_def)
next
  case (Cons c cs)
  have a: "onChunk_calls (gen_on_data parse c s)
      = onChunk_calls s @ gen_responses parse (until_first (gen_terminal parse) (complete_lines (g_buffer s @ c)))"
    by (simp add: gen_on_data_lines gen_lines_until)
  have b: "g_buffer (gen_on_data parse c s) = partial_line (g_buffer s @ c)"
    by (simp add: gen_on_data_lines)
  show ?case
    using Cons.IH [of "gen_on_data parse c s"] by (simp add: a b gen_responses_def)
qed

lemma generateStream_until:
  "onChunk_calls (generateStream parse chunks)
     = gen_responses parse (concat (map (until_first (gen_terminal parse)) (event_lines [] chunks)))"
  using gen_events_until [of parse gen_init chunks]
  by (simp add: generateStream_def gen_on_end_def gen_init_def)

lemma until_first_split:
  "(\<forall>l\<in>set pre. \<not> P l) \<Longrightarrow> P t \<Longrightarrow> until_first P (pre @ t # post) = pre @ [t]"
  by (induction pre) simp_all

lemma until_first_none:
  "(\<forall>l\<in>set ls. \<not> P l) \<Longrightarrow> until_first P ls = ls"
  by (induction ls) simp_all

lemma pull_lines_p_buffer:
  "p_buffer (pull_lines parse cb ls s) = p_buffer s"
  by (induction ls arbitrary: s) (simp_all add: Let_def split: option.splits)

lemma pull_lines_until:
  "onProgress_calls (pull_lines parse cb ls s)
     = onProgress_calls s @ pull_reports parse cb (until_first (pull_terminal parse) ls)"
proof (induction ls arbitrary: s)
  case Nil
  show ?case by (simp add: pull_reports_def)
next
  case (Cons l ls)
  note ih = Cons.IH
  show ?case
  proof (cases "pull_terminal parse l")
    case True
    then obtain d where d: "trim l \<noteq> []" "parse l = Some d" "status d = ''success'' \<or> pull_error d \<noteq> []"
      by (auto simp add: pull_terminal_def split: option.splits)
    from True have u: "until_first (pull_terminal parse) (l # ls) = [l]"
      by simp
    from d show ?thesis
      unfolding u by (auto simp add: pull_reports_def pull_report_def Let_def)
  next
    case False
    then have u: "until_first (pull_terminal parse) (l # ls) = l # until_first (pull_terminal parse) ls"
      by simp
    have r: "pull_reports parse cb (l # until_first (pull_terminal parse) ls)
        = pull_reports parse cb [l] @ pull_reports parse cb (until_first (pull_terminal parse) ls)"
      by (rule pull_reports_Cons)
    from False consider "trim l = []" | "trim l \<noteq> []" "parse l = None"
      | d where "trim l \<noteq> []" "parse l = Some d" "status d \<noteq> ''success''" "pull_error d = []"
      by (auto simp add: pull_terminal_def split: option.splits)
    then show ?thesis
    proof cases
      case 1
      then show ?thesis
        unfolding u r
        by (simp add: ih) (simp add: pull_reports_def pull_report_def)
    next
      case 2
      then show ?thesis
        unfolding u r
        by (simp add: ih) (simp add: pull_reports_def pull_report_def)
    next
      case 3
      then show ?thesis
        unfolding u r
        by (simp add: ih Let_def) (simp add: pull_reports_def pull_report_def)
    qed
  qed
qed

lemma pull_events_until:
  "onProgress_calls (foldl (\<lambda>s c. pull_on_data parse cb c s) s chunks)
     = onProgress_calls s
       @ pull_reports parse cb (concat (map (until_first (pull_terminal parse)) (event_lines (p_buffer s) chunks)))"
proof (induction chunks arbitrary: s)
  case Nil
  show ?case by (simp add: pull_reports_def)
next
  case (Cons c cs)
  have a: "onProgress_calls (pull_on_data parse cb c s)
      = onProgress_calls s @ pull_reports parse cb (until_first (pull_terminal parse) (complete_lines (p_buffer s @ c)))"
    by (simp add: pull_on_data_lines pull_lines_until)
  have b: "p_buffer (pull_on_data parse cb c s) = partial_line (p_buffer s @ c)"
    by (simp add: pull_on_data_lines)
  show ?case
    using Cons.IH [of "pull_on_data parse cb c s"] by (simp add: a b pull_reports_def)
qed

lemma pull_on_end_calls:
  "onProgress_calls (pull_on_end parse s) = onProgress_calls s"
  by (simp add: pull_on_end_def split: option.splits)

lemma pullModel_until:
  "onProgress_calls (pullModel parse cb chunks)
     = pull_reports parse cb (concat (map (until_first (pull_terminal parse)) (event_lines [] chunks)))"
  using pull_events_until [of parse cb pull_init chunks]
  by (simp add: pullModel_def pull_on_end_calls pull_init_def)

section \<open>Streaming client: what a stream delivers\<close>

lemma gen_lines_skip_malformed:
  "parse bad = None \<Longrightarrow> gen_lines parse (xs @ bad # ys) s = gen_lines parse (xs @ ys) s"
  by (induction xs arbitrary: s) (simp_all add: Let_def split: option.splits)

lemma pull_lines_skip_malformed:
  "parse bad = None \<Longrightarrow> pull_lines parse cb (xs @ bad # ys) s = pull_lines parse cb (xs @ ys) s"
  by (induction xs arbitrary: s) (simp_all add: Let_def split: option.splits)

lemma generateStream_buffer: "g_buffer (generateStream parse chunks) = partial_line (concat chunks)"
  using gen_chunks_invariant [of parse chunks]
  by (simp add: generateStream_def gen_on_end_def)

lemma pullModel_buffer: "p_buffer (pullModel parse cb chunks) = partial_line (concat chunks)"
  using pull_chunks_invariant [of parse cb chunks]
  by (simp add: pullModel_def pull_on_end_def split: option.splits)

lemma pullModel_no_terminal:
  assumes "\<forall>l\<in>set (complete_lines (concat chunks)). \<not> pull_terminal parse l"
  shows "onProgress_calls (pullModel parse cb chunks)
           = pull_reports parse cb (complete_lines (concat chunks))"
  using pull_data_no_terminal [OF assms, of cb]
  by (simp add: pullModel_def pull_on_end_def split: option.splits)

text \<open>
  Claim C7, amended. For \<^verbatim>\<open>generateStream\<close> and \<^verbatim>\<open>pullModel\<close>, whatever the
  cut of the stream into data chunks: what follows the last line feed is held in the
  buffer; a line that does not parse is skipped by the line loop and changes nothing.
  When no complete line ends the operation (reports \<^verbatim>\<open>done\<close> or an error, for the
  pull stream \<^verbatim>\<open>success\<close> or an error), the callback gets exactly the complete
  well-formed lines in order (for \<^verbatim>\<open>generateStream\<close> their non-empty responses),
  and \<^verbatim>\<open>generateStream\<close> resolves at the close with the concatenation of what it
  delivered. When a complete line ends the operation, the promise is settled by the
  first such line, with the text accumulated up to and including it or with its error,
  and the calls made begin with those for the lines up to and including it. Lines after
  it in the same data chunk are not processed: for every stream and every cut into data
  chunks the calls made are exactly those for the complete lines of each data event up
  to and including the first line of that event that ends the operation, and a single
  chunk whose complete lines are \<open>pre\<close>, a first line \<open>t\<close> that ends the operation,
  and \<open>post\<close> gives the calls for \<open>pre\<close> and \<open>t\<close> and none for \<open>post\<close>. A line
  left unfinished at the close of a generation stream is not parsed.
\<close>

theorem ndjson_streams_up_to_first_terminal:
  "g_buffer (generateStream gparse chunks) = partial_line (concat chunks)
   \<and> p_buffer (pullModel pparse cb chunks) = partial_line (concat chunks)
   \<and> (gparse bad = None \<longrightarrow> gen_lines gparse (xs @ bad # ys) gs = gen_lines gparse (xs @ ys) gs)
   \<and> (pparse bad = None \<longrightarrow> pull_lines pparse cb (xs @ bad # ys) ps = pull_lines pparse cb (xs @ ys) ps)
   \<and> ((\<forall>l\<in>set (complete_lines (concat gchunks)). \<not> gen_terminal gparse l) \<longrightarrow>
        onChunk_calls (generateStream gparse gchunks)
          = gen_responses gparse (complete_lines (concat gchunks))
        \<and> g_settled (generateStream gparse gchunks)
          = Some (Resolved (concat (gen_responses gparse (complete_lines (concat gchunks))))))
   \<and> (complete_lines (concat gchunks') = pre @ t # post
        \<and> (\<forall>l\<in>set pre. \<not> gen_terminal gparse l) \<and> gen_terminal gparse t \<and> gparse t = Some d \<longrightarrow>
        prefix (gen_responses gparse (pre @ [t])) (onChunk_calls (generateStream gparse gchunks'))
        \<and> g_settled (generateStream gparse gchunks')
          = Some (gen_verdict d (concat (gen_responses gparse (pre @ [t])))))
   \<and> ((\<forall>l\<in>set (complete_lines (concat pchunks)). \<not> pull_terminal pparse l) \<longrightarrow>
        onProgress_calls (pullModel pparse cb pchunks)
          = pull_reports pparse cb (complete_lines (concat pchunks)))
   \<and> (complete_lines (concat pchunks') = ppre @ pt # ppost
        \<and> (\<forall>l\<in>set ppre. \<not> pull_terminal pparse l) \<and> pull_terminal pparse pt \<and> pparse pt = Some pd \<longrightarrow>
        prefix (pull_reports pparse cb (ppre @ [pt])) (onProgress_calls (pullModel pparse cb pchunks'))
        \<and> p_settled (pullModel pparse cb pchunks') = Some (pull_verdict pd))
   \<and> onChunk_calls (generateStream gparse echunks)
        = gen_responses gparse
            (concat (map (until_first (gen_terminal gparse)) (event_lines [] echunks)))
   \<and> onProgress_calls (pullModel pparse cb echunks)
        = pull_reports pparse cb
            (concat (map (until_first (pull_terminal pparse)) (event_lines [] echunks)))
   \<and> (complete_lines gchunk = gpre @ gt # gpost
        \<and> (\<forall>l\<in>set gpre. \<not> gen_terminal gparse l) \<and> gen_terminal gparse gt \<longrightarrow>
        onChunk_calls (generateStream gparse [gchunk]) = gen_responses gparse (gpre @ [gt]))
   \<and> (complete_lines pchunk = qpre @ qt # qpost
        \<and> (\<forall>l\<in>set qpre. \<not> pull_terminal pparse l) \<and> pull_terminal pparse qt \<longrightarrow>
        onProgress_calls (pullModel pparse cb [pchunk]) = pull_reports pparse cb (qpre @ [qt]))"
proof (intro conjI impI)
  show "g_buffer (generateStream gparse chunks) = partial_line (concat chunks)"
    by (rule generateStream_buffer)
  show "p_buffer (pullModel pparse cb chunks) = partial_line (concat chunks)"
    by (rule pullModel_buffer)
  show "gen_lines gparse (xs @ bad # ys) gs = gen_lines gparse (xs @ ys) gs" if "gparse bad = None"
    using that by (rule gen_lines_skip_malformed)
  show "pull_lines pparse cb (xs @ bad # ys) ps = pull_lines pparse cb (xs @ ys) ps" if "pparse bad = None"
    using that by (rule pull_lines_skip_malformed)
next
  assume a: "\<forall>l\<in>set (complete_lines (concat gchunks)). \<not> gen_terminal gparse l"
  show "onChunk_calls (generateStream gparse gchunks)
          = gen_responses gparse (complete_lines (concat gchunks))"
    by (simp only: generateStream_no_terminal [OF a] gen_state.simps)
  show "g_settled (generateStream gparse gchunks)
          = Some (Resolved (concat (gen_responses gparse (complete_lines (concat gchunks)))))"
    by (simp only: generateStream_no_terminal [OF a] gen_state.simps)
next
  assume a: "complete_lines (concat gchunks') = pre @ t # post
        \<and> (\<forall>l\<in>set pre. \<not> gen_terminal gparse l) \<and> gen_terminal gparse t \<and> gparse t = Some d"
  then have a1: "complete_lines (concat gchunks') = pre @ t # post"
    and a2: "\<forall>l\<in>set pre. \<not> gen_terminal gparse l"
    and a3: "gen_terminal gparse t" and a4: "gparse t = Some d"
    by blast+
  show "prefix (gen_responses gparse (pre @ [t])) (onChunk_calls (generateStream gparse gchunks'))"
    by (rule generateStream_first_terminal(2) [OF a1 a2 a3 a4])
  show "g_settled (generateStream gparse gchunks')
          = Some (gen_verdict d (concat (gen_responses gparse (pre @ [t]))))"
    by (rule generateStream_first_terminal(1) [OF a1 a2 a3 a4])
next
  assume a: "\<forall>l\<in>set (complete_lines (concat pchunks)). \<not> pull_terminal pparse l"
  show "onProgress_calls (pullModel pparse cb pchunks)
          = pull_reports pparse cb (complete_lines (concat pchunks))"
    by (rule pullModel_no_terminal [OF a])
next
  assume a: "complete_lines (concat pchunks') = ppre @ pt # ppost
        \<and> (\<forall>l\<in>set ppre. \<not> pull_terminal pparse l) \<and> pull_terminal pparse pt \<and> pparse pt = Some pd"
  then have a1: "complete_lines (concat pchunks') = ppre @ pt # ppost"
    and a2: "\<forall>l\<in>set ppre. \<not> pull_terminal pparse l"
    and a3: "pull_terminal pparse pt" and a4: "pparse pt = Some pd"
    by blast+
  show "prefix (pull_reports pparse cb (ppre @ [pt])) (onProgress_calls (pullModel pparse cb pchunks'))"
    by (rule pullModel_first_terminal(2) [OF a1 a2 a3 a4])
  show "p_settled (pullModel pparse cb pchunks') = Some (pull_verdict pd)"
    by (rule pullModel_first_terminal(1) [OF a1 a2 a3 a4])
next
  show "onChunk_calls (generateStream gparse echunks)
        = gen_responses gparse
            (concat (map (until_first (gen_terminal gparse)) (event_lines [] echunks)))"
    by (rule generateStream_until)
  show "onProgress_calls (pullModel pparse cb echunks)
        = pull_reports pparse cb
            (concat (map (until_first (pull_terminal pparse)) (event_lines [] echunks)))"
    by (rule pullModel_until)
next
  assume "complete_lines gchunk = gpre @ gt # gpost
        \<and> (\<forall>l\<in>set gpre. \<not> gen_terminal gparse l) \<and> gen_terminal gparse gt"
  then have "until_first (gen_terminal gparse) (complete_lines gchunk) = gpre @ [gt]"
    by (simp add: until_first_split)
  then show "onChunk_calls (generateStream gparse [gchunk]) = gen_responses gparse (gpre @ [gt])"
    by (simp add: generateStream_until)
next
  assume "complete_lines pchunk = qpre @ qt # qpost
        \<and> (\<forall>l\<in>set qpre. \<not> pull_terminal pparse l) \<and> pull_terminal pparse qt"
  then have "until_first (pull_terminal pparse) (complete_lines pchunk) = qpre @ [qt]"
    by (simp add: until_first_split)
  then show "onProgress_calls (pullModel pparse cb [pchunk]) = pull_reports pparse cb (qpre @ [qt])"
    by (simp add: pullModel_until)
qed

text \<open>
  Claim C10. When no line of the pull stream, neither a line ended by a line feed nor
  what is left at the close, is a non-blank line that parses and reports the status
  \<^verbatim>\<open>success\<close> or an error, the promise is still unsettled after the last data
  event, and the end event resolves it with true.
\<close>

theorem pullModel_open_end_resolves_true:
  assumes "\<forall>l\<in>set (split_nl (concat chunks)). \<not> pull_terminal parse l"
  shows "p_settled (foldl (\<lambda>s c. pull_on_data parse cb c s) pull_init chunks) = None
     \<and> p_settled (pullModel parse cb chunks) = Some (PullResolved True)"
proof -
  from assms have cl: "\<forall>l\<in>set (complete_lines (concat chunks)). \<not> pull_terminal parse l"
    and pl: "\<not> pull_terminal parse (partial_line (concat chunks))"
    by (simp_all add: split_nl_lines [of "concat chunks"])
  note d = pull_data_no_terminal [OF cl, of cb]
  from pl have "p_settled (pull_on_end parse
      \<lparr>p_buffer = partial_line (concat chunks),
        onProgress_calls = pull_reports parse cb (complete_lines (concat chunks)),
        p_settled = None\<rparr>) = Some (PullResolved True)"
    by (auto simp add: pull_on_end_def pull_terminal_def p_settle_def split: option.splits)
  with d show ?thesis
    by (simp add: pullModel_def)
qed

section \<open>Streaming client: sample streams\<close>

lemma trim_examples:
  "trim ''{\"response\":\"a\"}'' \<noteq> []"
  "trim ''{\"response\":\"b\"}'' \<noteq> []"
  "trim ''{\"response\":\"\",\"done\":true}'' \<noteq> []"
  "trim ''not json'' \<noteq> []"
  "trim ''garbage'' \<noteq> []"
  "trim ''{\"resp'' \<noteq> []"
  "trim ''{\"status\":\"pulling\",\"completed\":5,\"total\":10}'' \<noteq> []"
  "trim ''{\"status\":\"verifying\"}'' \<noteq> []"
  "trim ''{\"status\":\"success\"}'' \<noteq> []"
  "trim [] = []"
  by (simp_all add: trim_def is_space_def)

lemma sample_gen_parse_examples:
  "sample_gen_parse ''{\"response\":\"a\"}'' = Some \<lparr>response = ''a'', is_done = False, error = None\<rparr>"
  "sample_gen_parse ''{\"response\":\"b\"}'' = Some \<lparr>response = ''b'', is_done = False, error = None\<rparr>"
  "sample_gen_parse ''{\"response\":\"\",\"done\":true}'' = Some \<lparr>response = [], is_done = True, error = None\<rparr>"
  "sample_gen_parse ''not json'' = None"
  "sample_gen_parse ''{\"resp'' = None"
  by (simp_all add: sample_gen_parse_def)

lemma sample_pull_parse_examples:
  "sample_pull_parse ''{\"status\":\"pulling\",\"completed\":5,\"total\":10}''
     = Some \<lparr>status = ''pulling'', completed = Some 5, total = Some 10, pull_error = []\<rparr>"
  "sample_pull_parse ''{\"status\":\"verifying\"}''
     = Some \<lparr>status = ''verifying'', completed = None, total = None, pull_error = []\<rparr>"
  "sample_pull_parse ''{\"status\":\"success\"}''
     = Some \<lparr>status = ''success'', completed = None, total = None, pull_error = []\<rparr>"
  "sample_pull_parse ''garbage'' = None"
  by (simp_all add: sample_pull_parse_def)

lemma sample_lines:
  "split_nl (concat gen_chunks_malformed)
     = [''{\"response\":\"a\"}'', ''not json'', ''{\"response\":\"b\"}'', ''{\"resp'']"
  "split_nl (concat gen_chunks_done)
     = [''{\"response\":\"a\"}'', ''{\"response\":\"\",\"done\":true}'', []]"
  "split_nl (concat gen_chunks_after_done)
     = [''{\"response\":\"a\"}'', ''{\"response\":\"\",\"done\":true}'', ''{\"response\":\"b\"}'', []]"
  "split_nl (concat pull_chunks_open)
     = [''{\"status\":\"pulling\",\"completed\":5,\"total\":10}'', ''garbage'',
        ''{\"status\":\"verifying\"}'', []]"
  "split_nl (concat pull_chunks_success)
     = [''{\"status\":\"pulling\",\"completed\":5,\"total\":10}'', ''{\"status\":\"success\"}'', []]"
  by (simp_all add: gen_chunks_malformed_def gen_chunks_done_def gen_chunks_after_done_def
      pull_chunks_open_def pull_chunks_success_def)

text \<open>
  Counterexample to claim C7. One data chunk holds three complete lines: a response
  \<^verbatim>\<open>a\<close>, the \<^verbatim>\<open>done\<close> line, and a response \<^verbatim>\<open>b\<close>. The third line is
  complete and well-formed, but the handler returns at the \<^verbatim>\<open>done\<close> line: the chunk
  callback is called with \<^verbatim>\<open>a\<close> only.
\<close>

theorem generateStream_line_after_done_counterexample:
  "complete_lines (concat gen_chunks_after_done)
     = [''{\"response\":\"a\"}'', ''{\"response\":\"\",\"done\":true}'', ''{\"response\":\"b\"}'']
   \<and> trim ''{\"response\":\"b\"}'' \<noteq> []
   \<and> sample_gen_parse ''{\"response\":\"b\"}'' = Some \<lparr>response = ''b'', is_done = False, error = None\<rparr>
   \<and> onChunk_calls (generateStream sample_gen_parse gen_chunks_after_done) = [''a'']
   \<and> g_settled (generateStream sample_gen_parse gen_chunks_after_done) = Some (Resolved ''a'')"
proof -
  have l: "split_nl ''{\"response\":\"a\"}\<newline>{\"response\":\"\",\"done\":true}\<newline>{\"response\":\"b\"}\<newline>''
     = [''{\"response\":\"a\"}'', ''{\"response\":\"\",\"done\":true}'', ''{\"response\":\"b\"}'', []]"
    by simp
  show ?thesis
    by (simp add: complete_lines_def sample_lines generateStream_def gen_chunks_after_done_def
        gen_on_data_def gen_on_end_def gen_init_def g_settle_def l sample_gen_parse_examples
        trim_examples Let_def)
qed

text \<open>
  The amended claim C7 on the sample streams: a malformed line between two responses and
  a cut inside a line; a stream ended by its \<^verbatim>\<open>done\<close> line; a pull stream with a
  malformed line that closes without \<^verbatim>\<open>success\<close>; one that reports
  \<^verbatim>\<open>success\<close>; and single chunks with a complete line after the
  \<^verbatim>\<open>done\<close> line and after the \<^verbatim>\<open>success\<close> line.
\<close>

theorem ndjson_streams_up_to_first_terminal_witness:
  "g_buffer (generateStream sample_gen_parse gen_chunks_malformed) = ''{\"resp''
   \<and> sample_gen_parse ''not json'' = None
   \<and> gen_lines sample_gen_parse ([''{\"response\":\"a\"}''] @ ''not json'' # [''{\"response\":\"b\"}'']) gen_init
       = gen_lines sample_gen_parse ([''{\"response\":\"a\"}''] @ [''{\"response\":\"b\"}'']) gen_init
   \<and> onChunk_calls (generateStream sample_gen_parse gen_chunks_malformed) = [''a'', ''b'']
   \<and> g_settled (generateStream sample_gen_parse gen_chunks_malformed) = Some (Resolved ''ab'')
   \<and> g_settled (generateStream sample_gen_parse gen_chunks_done) = Some (Resolved ''a'')
   \<and> onProgress_calls (pullModel sample_pull_parse True pull_chunks_open)
       = [(''pulling'', Some 5, Some 10), (''verifying'', None, None)]
   \<and> p_settled (pullModel sample_pull_parse True pull_chunks_success) = Some (PullResolved True)
   \<and> onChunk_calls (generateStream sample_gen_parse
        [''{\"response\":\"a\"}\<newline>{\"response\":\"\",\"done\":true}\<newline>{\"response\":\"b\"}\<newline>''])
       = [''a'']
   \<and> onProgress_calls (pullModel sample_pull_parse True
        [''{\"status\":\"success\"}\<newline>{\"status\":\"verifying\"}\<newline>''])
       = [(''success'', None, None)]"
proof -
  have h1: "\<forall>l\<in>set (complete_lines (concat gen_chunks_malformed)). \<not> gen_terminal sample_gen_parse l"
    by (simp add: complete_lines_def sample_lines gen_terminal_def sample_gen_parse_examples)
  have h2: "complete_lines (concat gen_chunks_done)
              = [''{\"response\":\"a\"}''] @ ''{\"response\":\"\",\"done\":true}'' # []
            \<and> (\<forall>l\<in>set [''{\"response\":\"a\"}'']. \<not> gen_terminal sample_gen_parse l)
            \<and> gen_terminal sample_gen_parse ''{\"response\":\"\",\"done\":true}''
            \<and> sample_gen_parse ''{\"response\":\"\",\"done\":true}''
                = Some \<lparr>response = [], is_done = True, error = None\<rparr>"
    by (simp add: complete_lines_def sample_lines gen_terminal_def sample_gen_parse_examples
        trim_examples)
  have h3: "\<forall>l\<in>set (complete_lines (concat pull_chunks_open)). \<not> pull_terminal sample_pull_parse l"
    by (simp add: complete_lines_def sample_lines pull_terminal_def sample_pull_parse_examples)
  have h4: "complete_lines (concat pull_chunks_success)
              = [''{\"status\":\"pulling\",\"completed\":5,\"total\":10}''] @ ''{\"status\":\"success\"}'' # []
            \<and> (\<forall>l\<in>set [''{\"status\":\"pulling\",\"completed\":5,\"total\":10}''].
                  \<not> pull_terminal sample_pull_parse l)
            \<and> pull_terminal sample_pull_parse ''{\"status\":\"success\"}''
            \<and> sample_pull_parse ''{\"status\":\"success\"}''
                = Some \<lparr>status = ''success'', completed = None, total = None, pull_error = []\<rparr>"
    by (simp add: complete_lines_def sample_lines pull_terminal_def sample_pull_parse_examples
        trim_examples)
  have h5: "sample_gen_parse ''not json'' = None"
    by (simp add: sample_gen_parse_examples)
  have e1: "gen_responses sample_gen_parse (complete_lines (concat gen_chunks_malformed)) = [''a'', ''b'']"
    by (simp add: complete_lines_def sample_lines gen_responses_def gen_response_def
        sample_gen_parse_examples trim_examples)
  have e2: "gen_verdict \<lparr>response = [], is_done = True, error = None\<rparr>
              (concat (gen_responses sample_gen_parse
                 ([''{\"response\":\"a\"}''] @ [''{\"response\":\"\",\"done\":true}''])))
            = Resolved ''a''"
    by (simp add: gen_verdict_def gen_responses_def gen_response_def sample_gen_parse_examples
        trim_examples)
  have e3: "pull_reports sample_pull_parse True (complete_lines (concat pull_chunks_open))
              = [(''pulling'', Some 5, Some 10), (''verifying'', None, None)]"
    by (simp add: complete_lines_def sample_lines pull_reports_def pull_report_def
        sample_pull_parse_examples trim_examples)
  have e4: "pull_verdict \<lparr>status = ''success'', completed = None, total = None, pull_error = []\<rparr>
              = PullResolved True"
    by (simp add: pull_verdict_def)
  have e5: "partial_line (concat gen_chunks_malformed) = ''{\"resp''"
    by (simp add: partial_line_def sample_lines)
  note t = ndjson_streams_up_to_first_terminal [where gparse = sample_gen_parse and chunks = gen_chunks_malformed
        and pparse = sample_pull_parse and cb = True and bad = "''not json''"
        and xs = "[''{\"response\":\"a\"}'']" and ys = "[''{\"response\":\"b\"}'']"
        and gs = gen_init and ps = pull_init
        and gchunks = gen_chunks_malformed and gchunks' = gen_chunks_done
        and pre = "[''{\"response\":\"a\"}'']" and t = "''{\"response\":\"\",\"done\":true}''"
        and post = "[]" and d = "\<lparr>response = [], is_done = True, error = None\<rparr>"
        and pchunks = pull_chunks_open and pchunks' = pull_chunks_success
        and ppre = "[''{\"status\":\"pulling\",\"completed\":5,\"total\":10}'']"
        and pt = "''{\"status\":\"success\"}''" and ppost = "[]"
        and pd = "\<lparr>status = ''success'', completed = None, total = None, pull_error = []\<rparr>"
        and gchunk = "''{\"response\":\"a\"}\<newline>{\"response\":\"\",\"done\":true}\<newline>{\"response\":\"b\"}\<newline>''"
        and gpre = "[''{\"response\":\"a\"}'']" and gt = "''{\"response\":\"\",\"done\":true}''"
        and gpost = "[''{\"response\":\"b\"}'']"
        and pchunk = "''{\"status\":\"success\"}\<newline>{\"status\":\"verifying\"}\<newline>''"
        and qpre = "[]" and qt = "''{\"status\":\"success\"}''" and qpost = "[''{\"status\":\"verifying\"}'']"]
  have e6: "concat [''a'', ''b''] = ''ab''"
    by simp
  from t have t': "g_buffer (generateStream sample_gen_parse gen_chunks_malformed) = ''{\"resp''
     \<and> (sample_gen_parse ''not json'' = None \<longrightarrow>
          gen_lines sample_gen_parse ([''{\"response\":\"a\"}''] @ ''not json'' # [''{\"response\":\"b\"}'']) gen_init
            = gen_lines sample_gen_parse ([''{\"response\":\"a\"}''] @ [''{\"response\":\"b\"}'']) gen_init)
     \<and> ((\<forall>l\<in>set (complete_lines (concat gen_chunks_malformed)). \<not> gen_terminal sample_gen_parse l) \<longrightarrow>
          onChunk_calls (generateStream sample_gen_parse gen_chunks_malformed) = [''a'', ''b'']
          \<and> g_settled (generateStream sample_gen_parse gen_chunks_malformed) = Some (Resolved ''ab''))
     \<and> (complete_lines (concat gen_chunks_done)
              = [''{\"response\":\"a\"}''] @ ''{\"response\":\"\",\"done\":true}'' # []
            \<and> (\<forall>l\<in>set [''{\"response\":\"a\"}'']. \<not> gen_terminal sample_gen_parse l)
            \<and> gen_terminal sample_gen_parse ''{\"response\":\"\",\"done\":true}''
            \<and> sample_gen_parse ''{\"response\":\"\",\"done\":true}''
                = Some \<lparr>response = [], is_done = True, error = None\<rparr> \<longrightarrow>
          g_settled (generateStream sample_gen_parse gen_chunks_done) = Some (Resolved ''a''))
     \<and> ((\<forall>l\<in>set (complete_lines (concat pull_chunks_open)). \<not> pull_terminal sample_pull_parse l) \<longrightarrow>
          onProgress_calls (pullModel sample_pull_parse True pull_chunks_open)
            = [(''pulling'', Some 5, Some 10), (''verifying'', None, None)])
     \<and> (complete_lines (concat pull_chunks_success)
              = [''{\"status\":\"pulling\",\"completed\":5,\"total\":10}''] @ ''{\"status\":\"success\"}'' # []
            \<and> (\<forall>l\<in>set [''{\"status\":\"pulling\",\"completed\":5,\"total\":10}''].
                  \<not> pull_terminal sample_pull_parse l)
            \<and> pull_terminal sample_pull_parse ''{\"status\":\"success\"}''
            \<and> sample_pull_parse ''{\"status\":\"success\"}''
                = Some \<lparr>status = ''success'', completed = None, total = None, pull_error = []\<rparr> \<longrightarrow>
          p_settled (pullModel sample_pull_parse True pull_chunks_success) = Some (PullResolved True))"
    unfolding e1 e2 e3 e4 e5 e6 by blast
  from t' h1 h2 h3 h4 h5
  have w1: "g_buffer (generateStream sample_gen_parse gen_chunks_malformed) = ''{\"resp''
   \<and> sample_gen_parse ''not json'' = None
   \<and> gen_lines sample_gen_parse ([''{\"response\":\"a\"}''] @ ''not json'' # [''{\"response\":\"b\"}'']) gen_init
       = gen_lines sample_gen_parse ([''{\"response\":\"a\"}''] @ [''{\"response\":\"b\"}'']) gen_init
   \<and> onChunk_calls (generateStream sample_gen_parse gen_chunks_malformed) = [''a'', ''b'']
   \<and> g_settled (generateStream sample_gen_parse gen_chunks_malformed) = Some (Resolved ''ab'')
   \<and> g_settled (generateStream sample_gen_parse gen_chunks_done) = Some (Resolved ''a'')
   \<and> onProgress_calls (pullModel sample_pull_parse True pull_chunks_open)
       = [(''pulling'', Some 5, Some 10), (''verifying'', None, None)]
   \<and> p_settled (pullModel sample_pull_parse True pull_chunks_success) = Some (PullResolved True)"
    by blast
  have h6: "complete_lines ''{\"response\":\"a\"}\<newline>{\"response\":\"\",\"done\":true}\<newline>{\"response\":\"b\"}\<newline>''
              = [''{\"response\":\"a\"}''] @ ''{\"response\":\"\",\"done\":true}'' # [''{\"response\":\"b\"}'']
            \<and> (\<forall>l\<in>set [''{\"response\":\"a\"}'']. \<not> gen_terminal sample_gen_parse l)
            \<and> gen_terminal sample_gen_parse ''{\"response\":\"\",\"done\":true}''"
    by (simp add: complete_lines_def gen_terminal_def sample_gen_parse_examples trim_examples)
  have h7: "complete_lines ''{\"status\":\"success\"}\<newline>{\"status\":\"verifying\"}\<newline>''
              = [] @ ''{\"status\":\"success\"}'' # [''{\"status\":\"verifying\"}'']
            \<and> (\<forall>l\<in>set []. \<not> pull_terminal sample_pull_parse l)
            \<and> pull_terminal sample_pull_parse ''{\"status\":\"success\"}''"
    by (simp add: complete_lines_def pull_terminal_def sample_pull_parse_examples trim_examples)
  have e7: "gen_responses sample_gen_parse ([''{\"response\":\"a\"}''] @ [''{\"response\":\"\",\"done\":true}'']) = [''a'']"
    by (simp add: gen_responses_def gen_response_def sample_gen_parse_examples trim_examples)
  have e8: "pull_reports sample_pull_parse True ([] @ [''{\"status\":\"success\"}'']) = [(''success'', None, None)]"
    by (simp add: pull_reports_def pull_report_def sample_pull_parse_examples trim_examples)
  from t [THEN conjunct2, THEN conjunct2, THEN conjunct2, THEN conjunct2, THEN conjunct2,
      THEN conjunct2, THEN conjunct2, THEN conjunct2, THEN conjunct2, THEN conjunct2,
      THEN conjunct1, THEN mp, OF h6]
  have w6: "onChunk_calls (generateStream sample_gen_parse
        [''{\"response\":\"a\"}\<newline>{\"response\":\"\",\"done\":true}\<newline>{\"response\":\"b\"}\<newline>''])
       = [''a'']"
    unfolding e7 .
  from t [THEN conjunct2, THEN conjunct2, THEN conjunct2, THEN conjunct2, THEN conjunct2,
      THEN conjunct2, THEN conjunct2, THEN conjunct2, THEN conjunct2, THEN conjunct2,
      THEN conjunct2, THEN mp, OF h7]
  have w7: "onProgress_calls (pullModel sample_pull_parse True
        [''{\"status\":\"success\"}\<newline>{\"status\":\"verifying\"}\<newline>''])
       = [(''success'', None, None)]"
    unfolding e8 .
  from w1 w6 w7 show ?thesis
    by (intro conjI) blast+
qed

text \<open>
  Claim C10 on the pull stream that closes after a progress line, a malformed line and a
  second progress line.
\<close>

theorem pullModel_open_end_resolves_true_witness:
  "split_nl (concat pull_chunks_open)
     = [''{\"status\":\"pulling\",\"completed\":5,\"total\":10}'', ''garbage'',
        ''{\"status\":\"verifying\"}'', []]
   \<and> \<not> pull_terminal sample_pull_parse ''{\"status\":\"pulling\",\"completed\":5,\"total\":10}''
   \<and> \<not> pull_terminal sample_pull_parse ''garbage''
   \<and> \<not> pull_terminal sample_pull_parse ''{\"status\":\"verifying\"}''
   \<and> \<not> pull_terminal sample_pull_parse []
   \<and> p_settled (foldl (\<lambda>s c. pull_on_data sample_pull_parse True c s) pull_init pull_chunks_open) = None
   \<and> p_settled (pullModel sample_pull_parse True pull_chunks_open) = Some (PullResolved True)"
proof -
  have n: "\<not> pull_terminal sample_pull_parse ''{\"status\":\"pulling\",\"completed\":5,\"total\":10}''"
    "\<not> pull_terminal sample_pull_parse ''garbage''"
    "\<not> pull_terminal sample_pull_parse ''{\"status\":\"verifying\"}''"
    "\<not> pull_terminal sample_pull_parse []"
    by (simp_all add: pull_terminal_def sample_pull_parse_examples trim_examples)
  have h: "\<forall>l\<in>set (split_nl (concat pull_chunks_open)). \<not> pull_terminal sample_pull_parse l"
    by (simp add: sample_lines n)
  from pullModel_open_end_resolves_true [OF h, of True] show ?thesis
    by (simp add: sample_lines n)
qed

end
